theory Spec2Isabelle
  imports
    Main
    "HOL-Library.Finite_Map"
    "HOL-Library.FSet"
    "HOL-Library.Char_ord"
    "HOL-Library.List_Lexorder"
    "HOL-Library.Multiset"
begin

section \<open>The generator of go\_project\_context\_maker\<close>

text \<open>
  The development embeds the package \<^verbatim>\<open>generator\<close> (the second \<^verbatim>\<open>package generator\<close>
  unit of \<^verbatim>\<open>src/main.go\<close>, lines 386--728, the one with \<^verbatim>\<open>expandSourceStarts\<close>) and
  the configuration types of \<^verbatim>\<open>src/internal/config/config.go\<close>.

  Go strings are byte sequences, so a string is a \<^typ>\<open>char list\<close> of bytes and the order
  on strings is the byte-wise lexicographic one (\<^verbatim>\<open>Char_ord\<close> and \<^verbatim>\<open>List_Lexorder\<close>), which
  is the order \<^verbatim>\<open>sort.Strings\<close> uses.
\<close>

subsection \<open>Errors\<close>

text \<open>
  Errors produced by the Go standard library and the operating system. The code only ever
  inspects them through \<^verbatim>\<open>errors.Is(err, os.ErrNotExist)\<close>.
\<close>

datatype os_error = ErrNotExist | ErrPermission | ErrBadPattern | ErrOther string

definition isNotExist :: "os_error \<Rightarrow> bool" where
  "isNotExist e = (e = ErrNotExist)"

text \<open>
  The errors built by the generator itself; each constructor is one \<^verbatim>\<open>fmt.Errorf\<close> or
  \<^verbatim>\<open>errors.New\<close> of the source, with the values that are formatted into the message.
\<close>

datatype error =
    Plain os_error                  \<comment> \<open>a library error returned unwrapped\<close>
  | ResolveRoot os_error            \<comment> \<open>\<^verbatim>\<open>resolve root: %w\<close>\<close>
  | StatFailed string os_error      \<comment> \<open>\<^verbatim>\<open>stat %s: %w\<close>\<close>
  | WalkFailed string os_error      \<comment> \<open>\<^verbatim>\<open>walk %s: %w\<close>\<close>
  | GlobFailed string os_error      \<comment> \<open>\<^verbatim>\<open>glob %s: %w\<close>\<close>
  | CollectFailed string error      \<comment> \<open>\<^verbatim>\<open>collect files for %q: %w\<close>\<close>
  | ReadFailed string os_error      \<comment> \<open>\<^verbatim>\<open>read %s: %w\<close>\<close>
  | UnknownSourceType string        \<comment> \<open>\<^verbatim>\<open>unknown source type: %q\<close>\<close>
  | WriteFailed string os_error     \<comment> \<open>\<^verbatim>\<open>write output %s: %w\<close>\<close>
  | NotADirectory string            \<comment> \<open>\<^verbatim>\<open>path exists and is not a directory: \<close> + dir\<close>

subsection \<open>The environment: standard library and filesystem\<close>

text \<open>
  One call of the callback that \<^verbatim>\<open>filepath.WalkDir\<close> makes: the path, the entry's name,
  whether the entry is a directory, and the error the walk hands to the callback.
\<close>

datatype walk_item =
  WalkItem (wi_path: string) (wi_name: string) (wi_isDir: bool) (wi_err: "os_error option")

text \<open>
  The functions of the Go standard library that the generator calls are parameters of the
  model: they are not code of the repository, and several depend on the host (path
  separator, volume names) or on Unicode tables. \<^typ>\<open>'w\<close> is the state of the filesystem;
  the operations that read it take it as an argument and the two that write it return the
  new state.
\<close>

record 'w goenv =
  filepath_Separator :: char
  filepath_Clean :: "string \<Rightarrow> string"
  filepath_Join :: "string \<Rightarrow> string \<Rightarrow> string"
  filepath_IsAbs :: "string \<Rightarrow> bool"
  filepath_Base :: "string \<Rightarrow> string"
  filepath_Dir :: "string \<Rightarrow> string"
  filepath_Ext :: "string \<Rightarrow> string"
  filepath_Rel :: "string \<Rightarrow> string \<Rightarrow> os_error + string"
  filepath_Match :: "string \<Rightarrow> string \<Rightarrow> bool \<times> os_error option"
  strings_TrimSpace :: "string \<Rightarrow> string"
  strings_ToLower :: "string \<Rightarrow> string"
  fmt_Quote :: "string \<Rightarrow> string"
  filepath_Abs :: "'w \<Rightarrow> string \<Rightarrow> os_error + string"
  os_Stat :: "'w \<Rightarrow> string \<Rightarrow> os_error + bool"
  filepath_WalkDir :: "'w \<Rightarrow> string \<Rightarrow> walk_item list"
  filepath_Glob :: "'w \<Rightarrow> string \<Rightarrow> os_error + string list"
  os_ReadFile :: "'w \<Rightarrow> string \<Rightarrow> os_error + string"
  os_MkdirAll :: "'w \<Rightarrow> string \<Rightarrow> 'w \<times> os_error option"
  os_WriteFile :: "'w \<Rightarrow> string \<Rightarrow> string \<Rightarrow> 'w \<times> os_error option"

text \<open>
  \<^verbatim>\<open>strings.Split(s, sep)\<close> for a separator of one byte: the result is never empty, and
  has one more element than \<open>s\<close> has separators.
\<close>

fun strings_Split :: "char \<Rightarrow> string \<Rightarrow> string list" where
  "strings_Split sep [] = [[]]"
| "strings_Split sep (c # cs) =
    (if c = sep then [] # strings_Split sep cs
     else (case strings_Split sep cs of
             [] \<Rightarrow> [[c]]
           | p # ps \<Rightarrow> (c # p) # ps))"

text \<open>\<^verbatim>\<open>strings.ContainsAny(s, chars)\<close> for ASCII \<open>chars\<close>.\<close>

definition strings_ContainsAny :: "string \<Rightarrow> string \<Rightarrow> bool" where
  "strings_ContainsAny s chars = (\<exists>c \<in> set s. c \<in> set chars)"

text \<open>
  \<^verbatim>\<open>filepath.ToSlash\<close>: the identity when the separator is the slash, otherwise every
  separator is replaced by a slash.
\<close>

definition filepath_ToSlash :: "'w goenv \<Rightarrow> string \<Rightarrow> string" where
  "filepath_ToSlash E path =
    (if filepath_Separator E = CHR ''/'' then path
     else map (\<lambda>c. if c = filepath_Separator E then CHR ''/'' else c) path)"

subsection \<open>The tree of paths\<close>

text \<open>
  \<^verbatim>\<open>type tnode struct { name string; children map[string]*tnode; isFile bool }\<close>.
  The nodes form a tree (no node is shared), so the pointers are the subterms; a Go map has
  no order, so \<open>children\<close> is a finite map.
\<close>

datatype tnode =
  TNode (name: string) (children: "(string, tnode) fmap") (isFile: bool)

definition newNode :: "string \<Rightarrow> tnode" where
  "newNode nm = TNode nm fmempty False"

text \<open>The assignment \<^verbatim>\<open>n.isFile = true\<close>.\<close>

definition setIsFile :: "tnode \<Rightarrow> tnode" where
  "setIsFile n = TNode (name n) (children n) True"

definition splitPath :: "'w goenv \<Rightarrow> string \<Rightarrow> string list" where
  "splitPath E p = strings_Split (filepath_Separator E) (filepath_Clean E p)"

text \<open>
  The loop of \<^verbatim>\<open>insertPath\<close> over \<open>parts\<close>, started at \<open>cur\<close>: the child \<open>part\<close> is
  looked up and created when absent, marked as a file when \<open>part\<close> is the last element
  (\<^verbatim>\<open>i == len(parts)-1\<close>), and the loop goes on below it. The in-place updates of the
  source are the rebuilt nodes here.
\<close>

fun insertParts :: "string list \<Rightarrow> tnode \<Rightarrow> tnode" where
  "insertParts [] cur = cur"
| "insertParts (part # rest) cur =
    (let n = (case fmlookup (children cur) part of
                None \<Rightarrow> newNode part
              | Some n \<Rightarrow> n);
         n' = (if rest = [] then setIsFile n else n)
     in TNode (name cur) (fmupd part (insertParts rest n') (children cur)) (isFile cur))"

definition insertPath :: "'w goenv \<Rightarrow> tnode \<Rightarrow> string \<Rightarrow> tnode" where
  "insertPath E root rel = insertParts (splitPath E rel) root"

definition isDir :: "tnode \<Rightarrow> bool" where
  "isDir n = (children n \<noteq> fmempty \<and> \<not> isFile n)"

text \<open>
  \<^verbatim>\<open>sortedKeys\<close>. The source ranges over the map in an unspecified order, appends each
  key to \<open>dirs\<close> or to \<open>files\<close>, and sorts both with \<^verbatim>\<open>sort.Strings\<close>; the keys of a map
  are distinct, so each sorted slice is the sorted list of a set of keys.
\<close>

definition dirKeys :: "(string, tnode) fmap \<Rightarrow> string fset" where
  "dirKeys m = ffilter (\<lambda>k. case fmlookup m k of Some v \<Rightarrow> isDir v | None \<Rightarrow> False) (fmdom m)"

definition fileKeys :: "(string, tnode) fmap \<Rightarrow> string fset" where
  "fileKeys m = ffilter (\<lambda>k. case fmlookup m k of Some v \<Rightarrow> \<not> isDir v | None \<Rightarrow> False) (fmdom m)"

definition sortedKeys :: "(string, tnode) fmap \<Rightarrow> bool \<Rightarrow> string list" where
  "sortedKeys m dirsFirst =
    (if \<not> dirsFirst then sorted_list_of_fset (fmdom m)
     else sorted_list_of_fset (dirKeys m) @ sorted_list_of_fset (fileKeys m))"

text \<open>The box-drawing strings of \<^verbatim>\<open>renderNode\<close>, as their UTF-8 bytes.\<close>

definition branchMid :: string where
  "branchMid = [CHR 0xE2, CHR 0x94, CHR 0x9C, CHR 0xE2, CHR 0x94, CHR 0x80,
                CHR 0xE2, CHR 0x94, CHR 0x80, CHR '' '']"

definition branchLast :: string where
  "branchLast = [CHR 0xE2, CHR 0x94, CHR 0x94, CHR 0xE2, CHR 0x94, CHR 0x80,
                 CHR 0xE2, CHR 0x94, CHR 0x80, CHR '' '']"

definition pipeIndent :: string where
  "pipeIndent = [CHR 0xE2, CHR 0x94, CHR 0x82, CHR '' '', CHR '' '', CHR '' '']"

definition blankIndent :: string where
  "blankIndent = ''    ''"

definition newline :: string where
  "newline = [CHR 0x0A]"

text \<open>
  \<^verbatim>\<open>renderNode(b, n, prefix, isLast)\<close>; the builder \<open>b\<close> is passed in and returned. The
  names that the loop ranges over are keys of \<open>n.children\<close>, so the lookup in the loop
  body always finds the child (lemma \<open>sortedKeys_lookup\<close> below); the \<open>None\<close> branch is
  there for totality only.
\<close>

function renderNode :: "string \<Rightarrow> tnode \<Rightarrow> string \<Rightarrow> bool \<Rightarrow> string" where
  "renderNode b n prefix isLast =
    (let branch = (if isLast then branchLast else branchMid);
         nextPrefix = (if isLast then prefix @ blankIndent else prefix @ pipeIndent)
     in if isDir n then
          (let b1 = b @ prefix @ branch @ name n @ ''/'' @ newline;
               names = sortedKeys (children n) True
           in fold (\<lambda>(i, nm) b'.
                      case fmlookup (children n) nm of
                        Some child \<Rightarrow> renderNode b' child nextPrefix (i = length names - 1)
                      | None \<Rightarrow> b')
                (enumerate 0 names) b1)
        else b @ prefix @ branch @ name n @ newline)"
  by pat_completeness auto
termination
proof -
  have aux: "size c < Suc (\<Sum>x \<in> fset (fset_of_fmap m). Suc (case x of (a, c') \<Rightarrow> size c'))"
    if "fmlookup m k = Some c" for m :: "(string, tnode) fmap" and k c
  proof -
    have mem: "(k, c) \<in> fset (fset_of_fmap m)"
      using that by (simp add: fset_of_fmap_iff')
    have "Suc (size c) \<le> (\<Sum>x \<in> fset (fset_of_fmap m). Suc (case x of (a, c') \<Rightarrow> size c'))"
      using member_le_sum [of "(k, c)" "fset (fset_of_fmap m)"
        "\<lambda>x. Suc (case x of (a, c') \<Rightarrow> size c')"] mem by simp
    then show ?thesis by simp
  qed
  have lt: "size c < size n" if "fmlookup (children n) k = Some c" for n k c
    using aux [OF that] by (cases n) simp
  show ?thesis
    by (relation "measure (\<lambda>(b, n, p, l). size n)") (auto intro: lt)
qed

definition renderTree :: "'w goenv \<Rightarrow> string list \<Rightarrow> string" where
  "renderTree E paths =
    (let root = fold (\<lambda>p r. insertPath E r p) paths (newNode '''');
         names = sortedKeys (children root) True
     in fold (\<lambda>(i, nm) b.
                case fmlookup (children root) nm of
                  Some child \<Rightarrow> renderNode b child '''' (i = length names - 1)
                | None \<Rightarrow> b)
          (enumerate 0 names) '''')"

subsection \<open>The configuration\<close>

text \<open>The structs of \<^verbatim>\<open>src/internal/config/config.go\<close>.\<close>

record Source =
  Type :: string
  SourcePaths :: "string list"
  ExcludePaths :: "string list"
  FilePattern :: string

record Document =
  Description :: string
  OutputPath :: string
  Sources :: "Source list"

record Config =
  ProjectPath :: string
  Documents :: "Document list"

subsection \<open>Patterns\<close>

text \<open>The loop of \<^verbatim>\<open>splitPatterns\<close> over \<open>parts\<close>, with the slice \<open>out\<close> it appends to.\<close>

fun splitPatternsLoop :: "'w goenv \<Rightarrow> string list \<Rightarrow> string list \<Rightarrow> string list" where
  "splitPatternsLoop E [] out = out"
| "splitPatternsLoop E (p # parts) out =
    (let p' = strings_TrimSpace E p
     in if p' \<noteq> [] then splitPatternsLoop E parts (out @ [p'])
        else splitPatternsLoop E parts out)"

definition splitPatterns :: "'w goenv \<Rightarrow> string \<Rightarrow> string list" where
  "splitPatterns E csv = splitPatternsLoop E (strings_Split CHR '','' csv) []"

text \<open>
  \<^verbatim>\<open>matchAny\<close>: the error of \<^verbatim>\<open>filepath.Match\<close> is assigned to the blank identifier, only
  the boolean is looked at.
\<close>

fun matchAny :: "'w goenv \<Rightarrow> string list \<Rightarrow> string \<Rightarrow> bool" where
  "matchAny E [] nm = False"
| "matchAny E (p # patterns) nm =
    (if fst (filepath_Match E p nm) then True else matchAny E patterns nm)"

definition hasGlob :: "string \<Rightarrow> bool" where
  "hasGlob p = strings_ContainsAny p ''*?[''"

subsection \<open>Expanding the source paths\<close>

text \<open>The loop of \<^verbatim>\<open>expandSourceStarts\<close> over \<open>dirs\<close>, with the slice \<open>out\<close>.\<close>

fun expandLoop ::
  "'w goenv \<Rightarrow> 'w \<Rightarrow> string \<Rightarrow> string list \<Rightarrow> string list \<Rightarrow> error + string list" where
  "expandLoop E w rootAbs [] out = Inr out"
| "expandLoop E w rootAbs (d # dirs) out =
    (let pat = (if \<not> filepath_IsAbs E d then filepath_Join E rootAbs d else d)
     in if hasGlob pat then
          (case filepath_Glob E w pat of
             Inl err \<Rightarrow> Inl (GlobFailed pat err)
           | Inr matches \<Rightarrow>
               if matches = [] then expandLoop E w rootAbs dirs out
               else expandLoop E w rootAbs dirs
                      (fold (\<lambda>m out'. out' @ [filepath_Clean E m]) matches out))
        else expandLoop E w rootAbs dirs (out @ [filepath_Clean E pat]))"

definition expandSourceStarts ::
  "'w goenv \<Rightarrow> 'w \<Rightarrow> string \<Rightarrow> string list \<Rightarrow> error + string list" where
  "expandSourceStarts E w rootAbs dirs = expandLoop E w rootAbs dirs []"

subsection \<open>Collecting files\<close>

text \<open>
  The set \<open>seen\<close> (\<^verbatim>\<open>map[string]struct{}\<close>) is a finite set of strings.

  The callback handed to \<^verbatim>\<open>filepath.WalkDir\<close>, as a function of the call's arguments and of
  \<open>seen\<close>.
\<close>

definition walkFn ::
  "'w goenv \<Rightarrow> string \<Rightarrow> string list \<Rightarrow> walk_item \<Rightarrow> string fset \<Rightarrow> os_error + string fset" where
  "walkFn E rootAbs patterns it seen =
    (case wi_err it of
       Some walkErr \<Rightarrow> Inl walkErr
     | None \<Rightarrow>
         if wi_isDir it then Inr seen
         else if patterns = [] \<or> matchAny E patterns (wi_name it) then
           (case filepath_Rel E rootAbs (wi_path it) of
              Inl err \<Rightarrow> Inl err
            | Inr rel \<Rightarrow> Inr (finsert (filepath_ToSlash E rel) seen))
         else Inr seen)"

text \<open>
  \<^verbatim>\<open>filepath.WalkDir\<close> calls the callback on the entries it visits, in order, and stops with
  the first error the callback returns (the callback of \<^verbatim>\<open>collectFiles\<close> never returns
  \<^verbatim>\<open>SkipDir\<close> or \<^verbatim>\<open>SkipAll\<close>).
\<close>

fun walkDir ::
  "(walk_item \<Rightarrow> 's \<Rightarrow> os_error + 's) \<Rightarrow> walk_item list \<Rightarrow> 's \<Rightarrow> os_error + 's" where
  "walkDir fn [] s = Inr s"
| "walkDir fn (it # its) s =
    (case fn it s of
       Inl err \<Rightarrow> Inl err
     | Inr s' \<Rightarrow> walkDir fn its s')"

text \<open>The loop of \<^verbatim>\<open>collectFiles\<close> over \<open>starts\<close>.\<close>

fun collectLoop ::
  "'w goenv \<Rightarrow> 'w \<Rightarrow> string \<Rightarrow> string list \<Rightarrow> string list \<Rightarrow> string fset
    \<Rightarrow> error + string fset" where
  "collectLoop E w rootAbs patterns [] seen = Inr seen"
| "collectLoop E w rootAbs patterns (start # starts) seen =
    (case os_Stat E w start of
       Inl err \<Rightarrow>
         if isNotExist err then collectLoop E w rootAbs patterns starts seen
         else Inl (StatFailed start err)
     | Inr infoIsDir \<Rightarrow>
         if \<not> infoIsDir then
           (let nm = filepath_Base E start
            in if patterns = [] \<or> matchAny E patterns nm then
                 (case filepath_Rel E rootAbs start of
                    Inl err \<Rightarrow> Inl (Plain err)
                  | Inr rel \<Rightarrow>
                      collectLoop E w rootAbs patterns starts
                        (finsert (filepath_ToSlash E rel) seen))
               else collectLoop E w rootAbs patterns starts seen)
         else
           (case walkDir (walkFn E rootAbs patterns) (filepath_WalkDir E w start) seen of
              Inl err \<Rightarrow> Inl (WalkFailed start err)
            | Inr seen' \<Rightarrow> collectLoop E w rootAbs patterns starts seen'))"

text \<open>
  \<^verbatim>\<open>collectFiles\<close>. Its last step copies the keys of \<open>seen\<close> into a slice and sorts the
  slice with \<^verbatim>\<open>sort.Strings\<close>; the keys are distinct, so the result is the sorted list of
  the set.
\<close>

definition collectFiles ::
  "'w goenv \<Rightarrow> 'w \<Rightarrow> string \<Rightarrow> string list \<Rightarrow> string \<Rightarrow> error + string list" where
  "collectFiles E w root dirs patternCSV =
    (case filepath_Abs E w root of
       Inl err \<Rightarrow> Inl (ResolveRoot err)
     | Inr rootAbs \<Rightarrow>
         (let patterns = splitPatterns E patternCSV
          in case expandSourceStarts E w rootAbs dirs of
               Inl err \<Rightarrow> Inl err
             | Inr starts \<Rightarrow>
                 (case collectLoop E w rootAbs patterns starts {||} of
                    Inl err \<Rightarrow> Inl err
                  | Inr seen \<Rightarrow> Inr (sorted_list_of_fset seen))))"

subsection \<open>Rendering and writing the documents\<close>

definition detectLang :: "'w goenv \<Rightarrow> string \<Rightarrow> string" where
  "detectLang E path =
    (let ext = strings_ToLower E (filepath_Ext E path)
     in if ext = ''.go'' then ''go''
        else if ext = ''.php'' then ''php''
        else if ext = ''.twig'' then ''twig''
        else if ext = ''.js'' then ''javascript''
        else if ext = ''.ts'' then ''typescript''
        else if ext = ''.json'' then ''json''
        else if ext = ''.yaml'' \<or> ext = ''.yml'' then ''yaml''
        else if ext = ''.md'' then ''md''
        else [])"

definition ensureDir :: "'w goenv \<Rightarrow> 'w \<Rightarrow> string \<Rightarrow> 'w \<times> error option" where
  "ensureDir E w dir =
    (if dir = [] \<or> dir = ''.'' then (w, None)
     else (case os_MkdirAll E w dir of
             (w', None) \<Rightarrow> (w', None)
           | (w', Some err) \<Rightarrow>
               (case os_Stat E w' dir of
                  Inr infoIsDir \<Rightarrow>
                    if \<not> infoIsDir then (w', Some (NotADirectory dir))
                    else (w', Some (Plain err))
                | Inl statErr \<Rightarrow> (w', Some (Plain err)))))"

text \<open>The verb \<^verbatim>\<open>%v\<close> applied to a slice of strings.\<close>

fun joinSpace :: "string list \<Rightarrow> string" where
  "joinSpace [] = []"
| "joinSpace [x] = x"
| "joinSpace (x # xs) = x @ '' '' @ joinSpace xs"

definition fmt_Slice :: "string list \<Rightarrow> string" where
  "fmt_Slice xs = ''['' @ joinSpace xs @ '']''"

definition fence :: string where
  "fence = [CHR 0x60, CHR 0x60, CHR 0x60]"

text \<open>The loop over \<open>files\<close> of a source of type \<^verbatim>\<open>file\<close>.\<close>

fun renderFiles ::
  "'w goenv \<Rightarrow> 'w \<Rightarrow> string \<Rightarrow> string list \<Rightarrow> string \<Rightarrow> error + string" where
  "renderFiles E w projectRoot [] b = Inr b"
| "renderFiles E w projectRoot (rel # files) b =
    (case os_ReadFile E w (filepath_Join E projectRoot rel) of
       Inl err \<Rightarrow> Inl (ReadFailed rel err)
     | Inr data \<Rightarrow>
         (let b1 = b @ ''### '' @ rel @ newline @ newline;
              lang = detectLang E rel;
              b2 = (if lang \<noteq> [] then b1 @ fence @ lang @ newline
                    else b1 @ fence @ newline);
              b3 = b2 @ data;
              b4 = (if data \<noteq> [] \<and> last data \<noteq> CHR 0x0A then b3 @ newline else b3);
              b5 = b4 @ fence @ newline @ newline
          in renderFiles E w projectRoot files b5))"

text \<open>The body of the loop over \<^verbatim>\<open>doc.Sources\<close> in \<^verbatim>\<open>Generate\<close>.\<close>

definition renderSource ::
  "'w goenv \<Rightarrow> 'w \<Rightarrow> string \<Rightarrow> Source \<Rightarrow> string \<Rightarrow> error + string" where
  "renderSource E w projectRoot src b =
    (case collectFiles E w projectRoot (SourcePaths src) (FilePattern src) of
       Inl err \<Rightarrow> Inl (CollectFailed (Type src) err)
     | Inr files \<Rightarrow>
         (let t = strings_ToLower E (Type src)
          in if t = ''tree'' then
               (if files = [] then
                  Inr (b @ fence @ newline @ ''(no matches for '' @ fmt_Quote E (FilePattern src)
                         @ '' in '' @ fmt_Slice (SourcePaths src) @ '')'' @ newline
                         @ fence @ newline @ newline)
                else Inr (b @ fence @ newline @ renderTree E files @ newline
                            @ fence @ newline @ newline))
             else if t = ''file'' then
               (if files = [] then
                  Inr (b @ ''_No files matched '' @ fmt_Quote E (FilePattern src)
                         @ '' under '' @ fmt_Slice (SourcePaths src) @ ''_'' @ newline @ newline)
                else renderFiles E w projectRoot files b)
             else Inl (UnknownSourceType (Type src))))"

fun renderSources ::
  "'w goenv \<Rightarrow> 'w \<Rightarrow> string \<Rightarrow> Source list \<Rightarrow> string \<Rightarrow> error + string" where
  "renderSources E w projectRoot [] b = Inr b"
| "renderSources E w projectRoot (src # srcs) b =
    (case renderSource E w projectRoot src b of
       Inl err \<Rightarrow> Inl err
     | Inr b' \<Rightarrow> renderSources E w projectRoot srcs b')"

text \<open>
  The body of the loop over \<^verbatim>\<open>c.Documents\<close>: the document is rendered into a fresh
  builder, the directory of the output is created, the output is written. The result is the
  filesystem after the iteration and the error that ends \<^verbatim>\<open>Generate\<close>, if any.
\<close>

definition generateDoc :: "'w goenv \<Rightarrow> string \<Rightarrow> 'w \<Rightarrow> Document \<Rightarrow> 'w \<times> error option" where
  "generateDoc E projectRoot w doc =
    (let b = (if Description doc \<noteq> [] then ''# '' @ Description doc @ newline @ newline
              else [])
     in case renderSources E w projectRoot (Sources doc) b of
          Inl err \<Rightarrow> (w, Some err)
        | Inr text \<Rightarrow>
            (case ensureDir E w (filepath_Dir E (OutputPath doc)) of
               (w1, Some err) \<Rightarrow> (w1, Some err)
             | (w1, None) \<Rightarrow>
                 (case os_WriteFile E w1 (OutputPath doc) text of
                    (w2, Some err) \<Rightarrow> (w2, Some (WriteFailed (OutputPath doc) err))
                  | (w2, None) \<Rightarrow> (w2, None))))"

fun generateLoop :: "'w goenv \<Rightarrow> string \<Rightarrow> 'w \<Rightarrow> Document list \<Rightarrow> 'w \<times> error option" where
  "generateLoop E projectRoot w [] = (w, None)"
| "generateLoop E projectRoot w (doc # docs) =
    (case generateDoc E projectRoot w doc of
       (w', Some err) \<Rightarrow> (w', Some err)
     | (w', None) \<Rightarrow> generateLoop E projectRoot w' docs)"

definition Generate :: "'w goenv \<Rightarrow> Config \<Rightarrow> string \<Rightarrow> 'w \<Rightarrow> 'w \<times> error option" where
  "Generate E c projectRoot w = generateLoop E projectRoot w (Documents c)"

subsection \<open>A small host for the examples\<close>

text \<open>
  The examples below run the generator on a Unix-like host whose filesystem is a handful of
  tables: what \<^verbatim>\<open>os.Stat\<close> answers for a path, which entries \<^verbatim>\<open>filepath.WalkDir\<close> visits
  below a directory, what \<^verbatim>\<open>filepath.Glob\<close> answers for a pattern, and the contents of the
  regular files. The working directory is \<^verbatim>\<open>/proj\<close>. The path and string functions agree
  with the Go library on the arguments the examples pass to them (clean slash-separated
  paths, ASCII strings, patterns that are a literal, a star followed by a literal, or the
  malformed pattern of a lone opening bracket).
\<close>

record world =
  statTable :: "(string \<times> (os_error + bool)) list"
  walkTable :: "(string \<times> walk_item list) list"
  globTable :: "(string \<times> (os_error + string list)) list"
  fileTable :: "(string \<times> string) list"
  madeDirs :: "string list"

definition tableGet :: "'b \<Rightarrow> ('a \<times> 'b) list \<Rightarrow> 'a \<Rightarrow> 'b" where
  "tableGet d t k = (case map_of t k of None \<Rightarrow> d | Some v \<Rightarrow> v)"

definition unixIsAbs :: "string \<Rightarrow> bool" where
  "unixIsAbs p = (case p of [] \<Rightarrow> False | c # cs \<Rightarrow> c = CHR ''/'')"

definition unixJoin :: "string \<Rightarrow> string \<Rightarrow> string" where
  "unixJoin a b = (if a = ''.'' then b else a @ ''/'' @ b)"

definition unixAbs :: "string \<Rightarrow> string" where
  "unixAbs p = (if unixIsAbs p then p else if p = ''.'' then ''/proj'' else ''/proj/'' @ p)"

definition unixBase :: "string \<Rightarrow> string" where
  "unixBase p = last (strings_Split CHR ''/'' p)"

definition unixDir :: "string \<Rightarrow> string" where
  "unixDir p =
    (if CHR ''/'' \<notin> set p then ''.''
     else (let d = rev (tl (dropWhile (\<lambda>c. c \<noteq> CHR ''/'') (rev p)))
           in if d = [] then ''/'' else d))"

definition unixExt :: "string \<Rightarrow> string" where
  "unixExt p =
    (let b = unixBase p
     in if CHR ''.'' \<in> set b then CHR ''.'' # rev (takeWhile (\<lambda>c. c \<noteq> CHR ''.'') (rev b))
        else [])"

definition unixRel :: "string \<Rightarrow> string \<Rightarrow> os_error + string" where
  "unixRel base targ =
    (if take (length base + 1) targ = base @ ''/'' then Inr (drop (length base + 1) targ)
     else if targ = base then Inr ''.''
     else Inl (ErrOther ''Rel: cannot make the path relative''))"

definition simpleMatch :: "string \<Rightarrow> string \<Rightarrow> bool \<times> os_error option" where
  "simpleMatch pat nm =
    (case pat of
       [] \<Rightarrow> (nm = [], None)
     | c # suffix \<Rightarrow>
         if pat = ''['' then (False, Some ErrBadPattern)
         else if c = CHR ''*'' then
           (length suffix \<le> length nm \<and> drop (length nm - length suffix) nm = suffix, None)
         else (pat = nm, None))"

definition asciiSpace :: "char \<Rightarrow> bool" where
  "asciiSpace c = (c \<in> set [CHR '' '', CHR 0x09, CHR 0x0A, CHR 0x0B, CHR 0x0C, CHR 0x0D])"

definition asciiTrim :: "string \<Rightarrow> string" where
  "asciiTrim s = rev (dropWhile asciiSpace (rev (dropWhile asciiSpace s)))"

definition asciiLower :: "string \<Rightarrow> string" where
  "asciiLower s =
    map (\<lambda>c. case map_of (zip ''ABCDEFGHIJKLMNOPQRSTUVWXYZ'' ''abcdefghijklmnopqrstuvwxyz'') c of
               None \<Rightarrow> c
             | Some l \<Rightarrow> l) s"

definition unixHost :: "world goenv" where
  "unixHost =
    \<lparr> filepath_Separator = CHR ''/'',
      filepath_Clean = (\<lambda>p. p),
      filepath_Join = unixJoin,
      filepath_IsAbs = unixIsAbs,
      filepath_Base = unixBase,
      filepath_Dir = unixDir,
      filepath_Ext = unixExt,
      filepath_Rel = unixRel,
      filepath_Match = simpleMatch,
      strings_TrimSpace = asciiTrim,
      strings_ToLower = asciiLower,
      fmt_Quote = (\<lambda>s. [CHR 0x22] @ s @ [CHR 0x22]),
      filepath_Abs = (\<lambda>w p. Inr (unixAbs p)),
      os_Stat = (\<lambda>w p. tableGet (Inl ErrNotExist) (statTable w) (unixAbs p)),
      filepath_WalkDir = (\<lambda>w p. tableGet [] (walkTable w) (unixAbs p)),
      filepath_Glob = (\<lambda>w p. tableGet (Inr []) (globTable w) p),
      os_ReadFile = (\<lambda>w p. case map_of (fileTable w) (unixAbs p) of
                               None \<Rightarrow> Inl ErrNotExist
                             | Some data \<Rightarrow> Inr data),
      os_MkdirAll = (\<lambda>w d. (w\<lparr>madeDirs := madeDirs w @ [unixAbs d]\<rparr>, None)),
      os_WriteFile = (\<lambda>w p data.
         if p = [] then (w, Some ErrNotExist)
         else (w\<lparr>fileTable := AList.update (unixAbs p) data (fileTable w),
                  statTable := AList.update (unixAbs p) (Inr False) (statTable w)\<rparr>, None)) \<rparr>"

text \<open>
  The project of the examples: \<^verbatim>\<open>/proj/src\<close> holds \<^verbatim>\<open>a.go\<close>, \<^verbatim>\<open>notes.txt\<close> and the
  directory \<^verbatim>\<open>b\<close> with \<^verbatim>\<open>c.go\<close>; \<^verbatim>\<open>/proj/locked\<close> cannot be inspected, and the
  directory \<^verbatim>\<open>/proj/broken\<close> cannot be read, which the walk reports in a second call of
  the callback for it.
\<close>

definition project :: world where
  "project =
    \<lparr> statTable =
        [(''/proj'', Inr True), (''/proj/src'', Inr True), (''/proj/src/a.go'', Inr False),
         (''/proj/src/notes.txt'', Inr False), (''/proj/src/b'', Inr True),
         (''/proj/src/b/c.go'', Inr False), (''/proj/locked'', Inl ErrPermission),
         (''/proj/broken'', Inr True)],
      walkTable =
        [(''/proj/src'',
            [WalkItem ''/proj/src'' ''src'' True None,
             WalkItem ''/proj/src/a.go'' ''a.go'' False None,
             WalkItem ''/proj/src/b'' ''b'' True None,
             WalkItem ''/proj/src/b/c.go'' ''c.go'' False None,
             WalkItem ''/proj/src/notes.txt'' ''notes.txt'' False None]),
         (''/proj/src/b'',
            [WalkItem ''/proj/src/b'' ''b'' True None,
             WalkItem ''/proj/src/b/c.go'' ''c.go'' False None]),
         (''/proj/broken'',
            [WalkItem ''/proj/broken'' ''broken'' True None,
             WalkItem ''/proj/broken'' ''broken'' True (Some ErrPermission)])],
      globTable =
        [(''/proj/s*'', Inr [''/proj/src'']),
         (''/proj/src/*'', Inr [''/proj/src/a.go'', ''/proj/src/b'', ''/proj/src/notes.txt'']),
         (''/proj/['', Inl ErrBadPattern)],
      fileTable =
        [(''/proj/src/a.go'', ''package a'' @ [CHR 0x0A]),
         (''/proj/src/b/c.go'', ''package b''),
         (''/proj/src/notes.txt'', ''todo'')],
      madeDirs = [] \<rparr>"

text \<open>
  A host whose separator is the backslash: \<^verbatim>\<open>filepath.Rel\<close> answers with backslashes, as
  it does on Windows.
\<close>

definition backslashHost :: "world goenv" where
  "backslashHost =
    unixHost\<lparr> filepath_Separator := CHR 0x5C,
               filepath_Rel := (\<lambda>base targ.
                 case unixRel base targ of
                   Inl err \<Rightarrow> Inl err
                 | Inr rel \<Rightarrow> Inr (map (\<lambda>c. if c = CHR ''/'' then CHR 0x5C else c) rel)) \<rparr>"

subsection \<open>Auxiliary notions of the proofs\<close>

text \<open>No path of the set contains the host's separator, unless the separator is the slash.\<close>

definition slashed :: "'w goenv \<Rightarrow> string fset \<Rightarrow> bool" where
  "slashed E S =
    (\<forall>p. p |\<in>| S \<longrightarrow> filepath_Separator E \<noteq> CHR ''/'' \<longrightarrow> filepath_Separator E \<notin> set p)"

text \<open>Documents and sources of the examples.\<close>

definition treeSource :: Source where
  "treeSource =
    \<lparr>Type = ''Tree'', SourcePaths = [''src''], ExcludePaths = [], FilePattern = ''*.go''\<rparr>"

definition fileSource :: Source where
  "fileSource =
    \<lparr>Type = ''file'', SourcePaths = [''src/b''], ExcludePaths = [], FilePattern = []\<rparr>"

definition zipSource :: Source where
  "zipSource =
    \<lparr>Type = ''zip'', SourcePaths = [''src''], ExcludePaths = [], FilePattern = ''*.go''\<rparr>"

definition lockedSource :: Source where
  "lockedSource =
    \<lparr>Type = ''zip'', SourcePaths = [''locked''], ExcludePaths = [], FilePattern = []\<rparr>"

definition goodDoc :: Document where
  "goodDoc = \<lparr>Description = ''Tree'', OutputPath = ''out/tree.md'', Sources = [treeSource]\<rparr>"

definition badDoc :: Document where
  "badDoc =
    \<lparr>Description = ''Bad'', OutputPath = ''out/bad.md'',
      Sources = [treeSource, zipSource, fileSource]\<rparr>"

definition lateDoc :: Document where
  "lateDoc = \<lparr>Description = ''Late'', OutputPath = ''out/late.md'', Sources = [fileSource]\<rparr>"

definition lockedDoc :: Document where
  "lockedDoc = \<lparr>Description = [], OutputPath = ''out.md'', Sources = [lockedSource]\<rparr>"

text \<open>The heading that \<^verbatim>\<open>Generate\<close> writes into the fresh builder of a document.\<close>

definition heading :: "Document \<Rightarrow> string" where
  "heading doc =
    (if Description doc \<noteq> [] then ''# '' @ Description doc @ newline @ newline else [])"

text \<open>
  A name passes the filter of the collector: the pattern list is empty, or
  \<^verbatim>\<open>filepath.Match\<close> reports a match for one of the patterns.
\<close>

definition included :: "'w goenv \<Rightarrow> string list \<Rightarrow> string \<Rightarrow> bool" where
  "included E patterns nm = (patterns = [] \<or> (\<exists>p \<in> set patterns. fst (filepath_Match E p nm)))"

text \<open>The inverse of splitting: the parts with the separator between them.\<close>

fun joinWith :: "char \<Rightarrow> string list \<Rightarrow> string" where
  "joinWith sep [] = []"
| "joinWith sep [x] = x"
| "joinWith sep (x # y # ys) = x @ sep # joinWith sep (y # ys)"

text \<open>
  The pattern that \<^verbatim>\<open>expandSourceStarts\<close> derives from an entry, whether globbing it
  fails, and what the entry adds to the output when it does not fail.
\<close>

definition resolvePattern :: "'w goenv \<Rightarrow> string \<Rightarrow> string \<Rightarrow> string" where
  "resolvePattern E rootAbs d = (if \<not> filepath_IsAbs E d then filepath_Join E rootAbs d else d)"

definition globFails :: "'w goenv \<Rightarrow> 'w \<Rightarrow> string \<Rightarrow> bool" where
  "globFails E w pat = (case filepath_Glob E w pat of Inl err \<Rightarrow> True | Inr ms \<Rightarrow> False)"

definition contribution :: "'w goenv \<Rightarrow> 'w \<Rightarrow> string \<Rightarrow> string \<Rightarrow> string list" where
  "contribution E w rootAbs d =
    (let pat = resolvePattern E rootAbs d
     in if hasGlob pat then
          (case filepath_Glob E w pat of
             Inl err \<Rightarrow> []
           | Inr matches \<Rightarrow> map (filepath_Clean E) matches)
        else [filepath_Clean E pat])"

text \<open>One iteration of the loop of \<^verbatim>\<open>collectFiles\<close>, and the step after the loop.\<close>

definition collectStep ::
  "'w goenv \<Rightarrow> 'w \<Rightarrow> string \<Rightarrow> string list \<Rightarrow> string \<Rightarrow> string fset \<Rightarrow> error + string fset" where
  "collectStep E w rootAbs patterns start seen =
    (case os_Stat E w start of
       Inl err \<Rightarrow> if isNotExist err then Inr seen else Inl (StatFailed start err)
     | Inr infoIsDir \<Rightarrow>
         if \<not> infoIsDir then
           (if patterns = [] \<or> matchAny E patterns (filepath_Base E start) then
              (case filepath_Rel E rootAbs start of
                 Inl err \<Rightarrow> Inl (Plain err)
               | Inr rel \<Rightarrow> Inr (finsert (filepath_ToSlash E rel) seen))
            else Inr seen)
         else
           (case walkDir (walkFn E rootAbs patterns) (filepath_WalkDir E w start) seen of
              Inl err \<Rightarrow> Inl (WalkFailed start err)
            | Inr seen' \<Rightarrow> Inr seen'))"

definition finish :: "error + string fset \<Rightarrow> error + string list" where
  "finish r = (case r of Inl err \<Rightarrow> Inl err | Inr seen \<Rightarrow> Inr (sorted_list_of_fset seen))"

text \<open>
  The outcome of one iteration of \<^verbatim>\<open>Generate\<close> in terms of what is done to the
  filesystem. \<open>docWritten\<close>: the sources render to a text, the directory of the output is
  ensured, and \<^verbatim>\<open>os.WriteFile\<close> writes the text to the output path, leaving the state
  \<open>s'\<close>. \<open>docFailed\<close>: rendering fails and the state is untouched, or ensuring the
  directory fails, or the write fails, with the state that step left.
\<close>

definition docWritten :: "'w goenv \<Rightarrow> string \<Rightarrow> 'w \<Rightarrow> Document \<Rightarrow> 'w \<Rightarrow> bool" where
  "docWritten E root s doc s' =
    (case renderSources E s root (Sources doc) (heading doc) of
       Inl err \<Rightarrow> False
     | Inr text \<Rightarrow>
         (case ensureDir E s (filepath_Dir E (OutputPath doc)) of
            (s1, Some err) \<Rightarrow> False
          | (s1, None) \<Rightarrow> os_WriteFile E s1 (OutputPath doc) text = (s', None)))"

definition docFailed :: "'w goenv \<Rightarrow> string \<Rightarrow> 'w \<Rightarrow> Document \<Rightarrow> 'w \<Rightarrow> error \<Rightarrow> bool" where
  "docFailed E root s doc s' err =
    (case renderSources E s root (Sources doc) (heading doc) of
       Inl e \<Rightarrow> s' = s \<and> err = e
     | Inr text \<Rightarrow>
         (case ensureDir E s (filepath_Dir E (OutputPath doc)) of
            (s1, Some e) \<Rightarrow> s' = s1 \<and> err = e
          | (s1, None) \<Rightarrow>
              (case os_WriteFile E s1 (OutputPath doc) text of
                 (s2, Some e) \<Rightarrow> s' = s2 \<and> err = WriteFailed (OutputPath doc) e
               | (s2, None) \<Rightarrow> False)))"

text \<open>
  What the specification says a start point adds to the collector's output. An entry that
  is not a directory adds its slash-normalised relative path when its name passes the
  filter; a start point that is a regular file is such an entry under its base name, and a
  start point that is a directory adds what the entries of its walk add.
\<close>

definition entryYield ::
  "'w goenv \<Rightarrow> string \<Rightarrow> string list \<Rightarrow> string \<Rightarrow> string \<Rightarrow> string list" where
  "entryYield E rootAbs patterns path nm =
    (if included E patterns nm then
       (case filepath_Rel E rootAbs path of
          Inl err \<Rightarrow> []
        | Inr rel \<Rightarrow> [filepath_ToSlash E rel])
     else [])"

definition startYield ::
  "'w goenv \<Rightarrow> 'w \<Rightarrow> string \<Rightarrow> string list \<Rightarrow> string \<Rightarrow> string list" where
  "startYield E w rootAbs patterns start =
    (case os_Stat E w start of
       Inl err \<Rightarrow> []
     | Inr infoIsDir \<Rightarrow>
         if \<not> infoIsDir then entryYield E rootAbs patterns start (filepath_Base E start)
         else concat (map (\<lambda>it. if wi_isDir it then []
                                else entryYield E rootAbs patterns (wi_path it) (wi_name it))
                        (filepath_WalkDir E w start)))"

text \<open>
  What the specification of the Path Expander (claim C5) and the comment above
  \<^verbatim>\<open>collectFiles\<close> say an entry contributes: the glob test is made on the entry.
\<close>

definition claimedContribution :: "'w goenv \<Rightarrow> 'w \<Rightarrow> string \<Rightarrow> string \<Rightarrow> string list" where
  "claimedContribution E w rootAbs d =
    (let pat = resolvePattern E rootAbs d
     in if hasGlob d then
          (case filepath_Glob E w pat of
             Inl err \<Rightarrow> []
           | Inr matches \<Rightarrow> map (filepath_Clean E) matches)
        else [filepath_Clean E pat])"

text \<open>
  A project whose directory is named \<^verbatim>\<open>/p[1]\<close>, which is the working directory of the
  host \<open>bracketHost\<close>. Its directory \<^verbatim>\<open>src\<close> holds \<^verbatim>\<open>a.go\<close>. No glob pattern matches
  anything: the pattern \<^verbatim>\<open>/p[1]/src\<close> would match \<^verbatim>\<open>/p1/src\<close>, which does not exist.
\<close>

definition bracketProject :: world where
  "bracketProject =
    \<lparr> statTable =
        [(''/p[1]'', Inr True), (''/p[1]/src'', Inr True), (''/p[1]/src/a.go'', Inr False)],
      walkTable =
        [(''/p[1]/src'',
            [WalkItem ''/p[1]/src'' ''src'' True None,
             WalkItem ''/p[1]/src/a.go'' ''a.go'' False None])],
      globTable = [],
      fileTable = [(''/p[1]/src/a.go'', ''package a'')],
      madeDirs = [] \<rparr>"

definition bracketHost :: "world goenv" where
  "bracketHost =
    unixHost\<lparr> filepath_Abs := (\<lambda>w p.
      Inr (if unixIsAbs p then p else if p = ''.'' then ''/p[1]'' else ''/p[1]/'' @ p)) \<rparr>"

section \<open>The tree is independent of the order of insertion\<close>

lemma name_insertParts [simp]: "name (insertParts ps n) = name n"
  by (cases ps) (simp_all add: Let_def)

lemma isFile_insertParts [simp]: "isFile (insertParts ps n) = isFile n"
  by (cases ps) (simp_all add: Let_def)

lemma insertParts_setIsFile:
  "insertParts ps (setIsFile n) = setIsFile (insertParts ps n)"
  by (cases ps) (simp_all add: Let_def setIsFile_def)

lemma setIsFile_idem [simp]: "setIsFile (setIsFile n) = setIsFile n"
  by (simp add: setIsFile_def)

text \<open>
  Two insertions commute: below a common first part the two loops meet the same child, and
  marking a node as a file commutes with inserting below it.
\<close>

lemma insertParts_commute:
  "insertParts ps (insertParts qs t) = insertParts qs (insertParts ps t)"
proof (induction ps arbitrary: qs t)
  case Nil
  show ?case by simp
next
  case (Cons p ps)
  show ?case
  proof (cases qs)
    case Nil
    then show ?thesis by simp
  next
    case (Cons q qs')
    show ?thesis
    proof (cases "p = q")
      case False
      then show ?thesis
        unfolding Cons by (simp add: Let_def fmupd_reorder_neq)
    next
      case True
      show ?thesis
        unfolding Cons True by (simp add: Let_def insertParts_setIsFile Cons.IH)
    qed
  qed
qed

lemma insertPath_commute:
  "insertPath E (insertPath E t p) q = insertPath E (insertPath E t q) p"
  by (simp add: insertPath_def insertParts_commute)

lemma build_permutation:
  assumes "mset xs = mset ys"
  shows "fold (\<lambda>p r. insertPath E r p) xs t = fold (\<lambda>p r. insertPath E r p) ys t"
proof -
  have "fold (\<lambda>p r. insertPath E r p) xs = fold (\<lambda>p r. insertPath E r p) ys"
    by (rule fold_multiset_equiv [OF _ assms]) (simp add: fun_eq_iff insertPath_commute)
  then show ?thesis by simp
qed

text \<open>
  Claim C3. \<^verbatim>\<open>renderTree\<close> is order-independent: a list of paths and any permutation of it
  (a list with the same elements, each as often) are rendered to the same string.
\<close>

theorem renderTree_permutation:
  "mset xs = mset ys \<Longrightarrow> renderTree E xs = renderTree E ys"
  by (simp add: renderTree_def build_permutation [of xs ys])

theorem renderTree_permutation_witness:
  "mset [''src/a.go'', ''src/b/c.go'', ''lib/z.go''] = mset [''lib/z.go'', ''src/b/c.go'', ''src/a.go'']
   \<and> renderTree unixHost [''src/a.go'', ''src/b/c.go'', ''lib/z.go'']
     = renderTree unixHost [''lib/z.go'', ''src/b/c.go'', ''src/a.go'']"
proof -
  have h: "mset [''src/a.go'', ''src/b/c.go'', ''lib/z.go'']
             = mset [''lib/z.go'', ''src/b/c.go'', ''src/a.go'']"
    by (simp add: add_mset_commute)
  show ?thesis
    using h renderTree_permutation [OF h, of unixHost] by simp
qed

section \<open>The collector's output\<close>

lemma sorted_sorted_list_of_fset [simp]: "sorted (sorted_list_of_fset S)"
  by (simp add: sorted_list_of_fset.rep_eq)

lemma distinct_sorted_list_of_fset [simp]: "distinct (sorted_list_of_fset S)"
  by (simp add: sorted_list_of_fset.rep_eq)

lemma slashed_empty [simp]: "slashed E {||}"
  by (simp add: slashed_def)

lemma slashed_finsert_ToSlash:
  "slashed E S \<Longrightarrow> slashed E (finsert (filepath_ToSlash E p) S)"
  by (auto simp: slashed_def filepath_ToSlash_def)

lemma walkFn_slashed:
  "walkFn E rootAbs patterns it seen = Inr seen' \<Longrightarrow> slashed E seen \<Longrightarrow> slashed E seen'"
  by (auto simp: walkFn_def slashed_finsert_ToSlash split: option.splits if_splits sum.splits)

lemma walkDir_slashed:
  "walkDir (walkFn E rootAbs patterns) its seen = Inr seen' \<Longrightarrow> slashed E seen
    \<Longrightarrow> slashed E seen'"
proof (induction its arbitrary: seen)
  case Nil
  then show ?case by simp
next
  case (Cons it its)
  from Cons.prems(1) obtain s1 where
    s1: "walkFn E rootAbs patterns it seen = Inr s1"
    and rest: "walkDir (walkFn E rootAbs patterns) its s1 = Inr seen'"
    by (auto split: sum.splits)
  from walkFn_slashed [OF s1 Cons.prems(2)] have "slashed E s1" .
  then show ?case by (rule Cons.IH [OF rest])
qed

text \<open>
  One iteration of the loop over the start points leaves \<open>seen\<close> as it is, adds one
  slash-normalised path, or adds what one walk adds.
\<close>

lemma collectLoop_slashed:
  "collectLoop E w rootAbs patterns starts seen = Inr seen' \<Longrightarrow> slashed E seen
    \<Longrightarrow> slashed E seen'"
proof (induction starts arbitrary: seen)
  case Nil
  then show ?case by simp
next
  case (Cons start starts)
  from Cons.prems(1) obtain s1 where
    rest: "collectLoop E w rootAbs patterns starts s1 = Inr seen'"
    and s1: "s1 = seen \<or> (\<exists>rel. s1 = finsert (filepath_ToSlash E rel) seen)
             \<or> walkDir (walkFn E rootAbs patterns) (filepath_WalkDir E w start) seen = Inr s1"
    by (auto simp: Let_def split: sum.splits if_splits)
  from s1 Cons.prems(2) have "slashed E s1"
    by (auto intro: slashed_finsert_ToSlash walkDir_slashed)
  then show ?case by (rule Cons.IH [OF rest])
qed

text \<open>
  Claim C1. Whenever \<^verbatim>\<open>collectFiles\<close> returns a list of paths, for any root, source paths
  and pattern string and on any filesystem, the list is sorted ascending in the byte-wise
  lexicographic order, has no duplicates, and none of its paths contains the host's
  separator when that separator is not the slash.
\<close>

theorem collectFiles_sorted_distinct_slashed:
  assumes "collectFiles E w root dirs patternCSV = Inr out"
  shows "sorted out \<and> distinct out
         \<and> (\<forall>p \<in> set out. filepath_Separator E \<noteq> CHR ''/'' \<longrightarrow> filepath_Separator E \<notin> set p)"
proof -
  from assms obtain rootAbs starts seen where
    loop: "collectLoop E w rootAbs (splitPatterns E patternCSV) starts {||} = Inr seen"
    and out: "out = sorted_list_of_fset seen"
    by (auto simp: collectFiles_def Let_def split: sum.splits)
  have "slashed E seen"
    by (rule collectLoop_slashed [OF loop]) simp
  then show ?thesis
    by (simp add: out slashed_def)
qed

text \<open>
  On the backslash host, \<^verbatim>\<open>src/b/c.go\<close> is reached from the start point \<^verbatim>\<open>src\<close> and from
  the start point \<^verbatim>\<open>src/b\<close>, and is listed once.
\<close>

theorem collectFiles_sorted_distinct_slashed_witness:
  "collectFiles backslashHost project ''.'' [''src'', ''src/b'', ''missing''] ''*.go''
     = Inr [''src/a.go'', ''src/b/c.go'']
   \<and> sorted [''src/a.go'', ''src/b/c.go''] \<and> distinct [''src/a.go'', ''src/b/c.go'']
   \<and> filepath_Separator backslashHost \<noteq> CHR ''/''
   \<and> filepath_Separator backslashHost \<notin> set ''src/a.go''
   \<and> filepath_Separator backslashHost \<notin> set ''src/b/c.go''"
proof -
  have h: "collectFiles backslashHost project ''.'' [''src'', ''src/b'', ''missing''] ''*.go''
             = Inr [''src/a.go'', ''src/b/c.go'']"
    by code_simp
  have sep: "filepath_Separator backslashHost \<noteq> CHR ''/''"
    by (simp add: backslashHost_def)
  show ?thesis
    using h sep collectFiles_sorted_distinct_slashed [OF h] by simp
qed

section \<open>Sources and documents\<close>

lemma generateDoc_heading:
  "generateDoc E projectRoot w doc =
    (case renderSources E w projectRoot (Sources doc) (heading doc) of
       Inl err \<Rightarrow> (w, Some err)
     | Inr text \<Rightarrow>
         (case ensureDir E w (filepath_Dir E (OutputPath doc)) of
            (w1, Some err) \<Rightarrow> (w1, Some err)
          | (w1, None) \<Rightarrow>
              (case os_WriteFile E w1 (OutputPath doc) text of
                 (w2, Some err) \<Rightarrow> (w2, Some (WriteFailed (OutputPath doc) err))
               | (w2, None) \<Rightarrow> (w2, None))))"
  by (simp add: generateDoc_def heading_def Let_def)

lemma renderSources_append:
  "renderSources E w root (pre @ post) b =
    (case renderSources E w root pre b of
       Inl err \<Rightarrow> Inl err
     | Inr b' \<Rightarrow> renderSources E w root post b')"
  by (induction pre arbitrary: b) (auto split: sum.splits)

lemma generateLoop_append:
  "generateLoop E root w (ds1 @ ds2) =
    (case generateLoop E root w ds1 of
       (w', Some err) \<Rightarrow> (w', Some err)
     | (w', None) \<Rightarrow> generateLoop E root w' ds2)"
  by (induction ds1 arbitrary: w) (auto split: prod.splits option.splits)

lemma renderSource_ExcludePaths:
  "renderSource E w root (src\<lparr>ExcludePaths := ex\<rparr>) b = renderSource E w root src b"
  by (simp add: renderSource_def Let_def split: sum.splits)

lemma renderSources_ExcludePaths:
  "renderSources E w root (map (\<lambda>s. s\<lparr>ExcludePaths := f s\<rparr>) srcs) b
     = renderSources E w root srcs b"
  by (induction srcs arbitrary: b) (simp_all add: renderSource_ExcludePaths split: sum.splits)

text \<open>
  Claim C8. The exclusion patterns of a source are never applied: replacing the
  \<^verbatim>\<open>excludePaths\<close> of a source by any other list changes neither the arguments of the
  collector, and so not its output on the same filesystem, nor what the source contributes to
  the document; and replacing the exclusion lists of all sources of a document changes
  nothing in what \<^verbatim>\<open>Generate\<close> does for that document.
\<close>

theorem collection_ignores_ExcludePaths:
  "collectFiles E w root (SourcePaths (src\<lparr>ExcludePaths := ex\<rparr>))
       (FilePattern (src\<lparr>ExcludePaths := ex\<rparr>))
     = collectFiles E w root (SourcePaths src) (FilePattern src)
   \<and> renderSource E w root (src\<lparr>ExcludePaths := ex\<rparr>) b = renderSource E w root src b
   \<and> generateDoc E root w (doc\<lparr>Sources := map (\<lambda>s. s\<lparr>ExcludePaths := f s\<rparr>) (Sources doc)\<rparr>)
     = generateDoc E root w doc"
  by (simp add: renderSource_ExcludePaths renderSources_ExcludePaths generateDoc_def Let_def
           split: sum.splits prod.splits option.splits)

text \<open>
  On the example project a source that lists \<^verbatim>\<open>src\<close> and \<^verbatim>\<open>*.go\<close> as excluded still
  collects the Go files below \<^verbatim>\<open>src\<close>.
\<close>

theorem collection_ignores_ExcludePaths_witness:
  "collectFiles unixHost project ''.''
       (SourcePaths (treeSource\<lparr>ExcludePaths := [''src'', ''*.go'']\<rparr>))
       (FilePattern (treeSource\<lparr>ExcludePaths := [''src'', ''*.go'']\<rparr>))
     = Inr [''src/a.go'', ''src/b/c.go'']
   \<and> renderSource unixHost project ''.'' (treeSource\<lparr>ExcludePaths := [''src'', ''*.go'']\<rparr>) []
     = renderSource unixHost project ''.'' treeSource []"
proof -
  have c: "collectFiles unixHost project ''.'' (SourcePaths treeSource) (FilePattern treeSource)
             = Inr [''src/a.go'', ''src/b/c.go'']"
    by code_simp
  from collection_ignores_ExcludePaths
         [where E = unixHost and w = project and root = "''.''" and src = treeSource
            and ex = "[''src'', ''*.go'']" and b = "[]"] c
  show ?thesis by simp
qed

lemma generateDoc_written:
  "generateDoc E root s doc = (s', None) \<longleftrightarrow> docWritten E root s doc s'"
  by (auto simp: generateDoc_heading docWritten_def split: sum.splits prod.splits option.splits)

lemma generateDoc_failed:
  "generateDoc E root s doc = (s', Some err) \<longleftrightarrow> docFailed E root s doc s' err"
  by (auto simp: generateDoc_heading docFailed_def split: sum.splits prod.splits option.splits)

lemma generateLoop_chain:
  assumes "length ws = length docs"
      and "\<forall>i < length docs. docWritten E root ((w # ws) ! i) (docs ! i) (ws ! i)"
  shows "generateLoop E root w docs = (last (w # ws), None)"
  using assms
proof (induction docs arbitrary: w ws)
  case Nil
  then show ?case by simp
next
  case (Cons d docs)
  from Cons.prems(1) obtain w1 ws' where ws: "ws = w1 # ws'"
    by (cases ws) auto
  from Cons.prems(2) [rule_format, of 0] ws have first: "generateDoc E root w d = (w1, None)"
    by (simp add: generateDoc_written)
  have rest: "\<forall>i < length docs. docWritten E root ((w1 # ws') ! i) (docs ! i) (ws' ! i)"
  proof (intro allI impI)
    fix i assume "i < length docs"
    with Cons.prems(2) [rule_format, of "Suc i"] ws
    show "docWritten E root ((w1 # ws') ! i) (docs ! i) (ws' ! i)"
      by simp
  qed
  from Cons.prems(1) ws have "length ws' = length docs" by simp
  from Cons.IH [OF this rest] first ws show ?case by simp
qed

text \<open>
  Claim C9. Let \<open>w\<close> be the filesystem at the start and let the documents \<open>before\<close> be
  written one after the other, the \<open>i\<close>-th on the filesystem its predecessor left and
  leaving \<open>ws ! i\<close> (each is rendered, its directory ensured and its text written without
  error).
  \<^item> \<^verbatim>\<open>Generate\<close> on exactly these documents succeeds and leaves the last of these
    filesystems: the documents are processed in the order of the configuration, each on the
    state its predecessor left, and nothing else is done.
  \<^item> If the next document \<open>doc\<close> fails on that filesystem, in rendering, in ensuring its
    directory or in writing, and leaves \<open>w2\<close>, then \<^verbatim>\<open>Generate\<close> returns that error and
    \<open>w2\<close>, whatever documents come \<open>after\<close>: none of them is rendered or written.
  \<^item> If \<open>doc\<close> fails in rendering, the filesystem at the end is the one the last
    written document left: the outputs written before the failure are left in place.
\<close>

theorem Generate_sequential_abort:
  assumes "length ws = length before"
      and "\<forall>i < length before. docWritten E root ((w # ws) ! i) (before ! i) (ws ! i)"
  shows "Generate E \<lparr>ProjectPath = pp, Documents = before\<rparr> root w = (last (w # ws), None)
       \<and> (docFailed E root (last (w # ws)) doc w2 err \<longrightarrow>
            Generate E \<lparr>ProjectPath = pp, Documents = before @ doc # after\<rparr> root w
              = (w2, Some err))
       \<and> (renderSources E (last (w # ws)) root (Sources doc) (heading doc) = Inl err \<longrightarrow>
            Generate E \<lparr>ProjectPath = pp, Documents = before @ doc # after\<rparr> root w
              = (last (w # ws), Some err))"
proof -
  note loop = generateLoop_chain [OF assms]
  have a: "Generate E \<lparr>ProjectPath = pp, Documents = before\<rparr> root w = (last (w # ws), None)"
    using loop by (simp add: Generate_def)
  have b: "Generate E \<lparr>ProjectPath = pp, Documents = before @ doc # after\<rparr> root w
              = (w2, Some err)"
    if "docFailed E root (last (w # ws)) doc w2 err" for w2 err
  proof -
    from that have "generateDoc E root (last (w # ws)) doc = (w2, Some err)"
      by (simp add: generateDoc_failed)
    with loop show ?thesis by (simp add: Generate_def generateLoop_append)
  qed
  have c: "Generate E \<lparr>ProjectPath = pp, Documents = before @ doc # after\<rparr> root w
              = (last (w # ws), Some err)"
    if "renderSources E (last (w # ws)) root (Sources doc) (heading doc) = Inl err"
  proof -
    from that have "docFailed E root (last (w # ws)) doc (last (w # ws)) err"
      by (simp add: docFailed_def)
    then show ?thesis by (rule b)
  qed
  from a b c show ?thesis by blast
qed

text \<open>
  On the example project: the first document is written to \<^verbatim>\<open>out/tree.md\<close>, the second
  has a source of the unknown type \<^verbatim>\<open>zip\<close>, the third is never written, and the first
  output is still there at the end.
\<close>

theorem Generate_sequential_abort_witness:
  "docWritten unixHost ''.'' project goodDoc (fst (generateDoc unixHost ''.'' project goodDoc))
   \<and> docFailed unixHost ''.'' (fst (generateDoc unixHost ''.'' project goodDoc)) badDoc
        (fst (generateDoc unixHost ''.'' project goodDoc)) (UnknownSourceType ''zip'')
   \<and> Generate unixHost \<lparr>ProjectPath = ''.'', Documents = [goodDoc]\<rparr> ''.'' project
     = (fst (generateDoc unixHost ''.'' project goodDoc), None)
   \<and> Generate unixHost \<lparr>ProjectPath = ''.'', Documents = [goodDoc] @ badDoc # [lateDoc]\<rparr>
        ''.'' project
     = (fst (generateDoc unixHost ''.'' project goodDoc), Some (UnknownSourceType ''zip''))
   \<and> map fst (fileTable project)
     = [''/proj/src/a.go'', ''/proj/src/b/c.go'', ''/proj/src/notes.txt'']
   \<and> map fst (fileTable (fst (generateDoc unixHost ''.'' project goodDoc)))
     = [''/proj/src/a.go'', ''/proj/src/b/c.go'', ''/proj/src/notes.txt'', ''/proj/out/tree.md'']"
proof -
  define W1 where "W1 = fst (generateDoc unixHost ''.'' project goodDoc)"
  have h1: "docWritten unixHost ''.'' project goodDoc W1"
    unfolding W1_def by code_simp
  have h2: "docFailed unixHost ''.'' W1 badDoc W1 (UnknownSourceType ''zip'')"
    unfolding W1_def by code_simp
  have h3: "map fst (fileTable W1)
     = [''/proj/src/a.go'', ''/proj/src/b/c.go'', ''/proj/src/notes.txt'', ''/proj/out/tree.md'']"
    unfolding W1_def by code_simp
  have h0: "map fst (fileTable project)
     = [''/proj/src/a.go'', ''/proj/src/b/c.go'', ''/proj/src/notes.txt'']"
    by code_simp
  have len: "length [W1] = length [goodDoc]" by simp
  have chain: "\<forall>i < length [goodDoc].
      docWritten unixHost ''.'' ((project # [W1]) ! i) ([goodDoc] ! i) ([W1] ! i)"
    using h1 by simp
  from Generate_sequential_abort [OF len chain, of "''.''" badDoc W1 "UnknownSourceType ''zip''" "[lateDoc]"]
    h1 h2 h3 h0
  show ?thesis unfolding W1_def by simp
qed

lemma renderSource_unknown_type:
  assumes "strings_ToLower E (Type src) \<noteq> ''tree''"
      and "strings_ToLower E (Type src) \<noteq> ''file''"
    shows "renderSource E w root src b =
            (case collectFiles E w root (SourcePaths src) (FilePattern src) of
               Inl err \<Rightarrow> Inl (CollectFailed (Type src) err)
             | Inr files \<Rightarrow> Inl (UnknownSourceType (Type src)))"
  using assms by (simp add: renderSource_def Let_def split: sum.splits)

text \<open>
  Claim C7, as stated, fails: the files of a source are collected before its type is looked
  at, so a source of an unknown type whose collection fails ends the run with the
  collection's error. Here the source of type \<^verbatim>\<open>zip\<close> names the directory \<^verbatim>\<open>locked\<close>,
  whose \<^verbatim>\<open>stat\<close> is refused.
\<close>

theorem unknown_type_counterexample:
  "strings_ToLower unixHost (Type lockedSource) \<noteq> ''tree''
   \<and> strings_ToLower unixHost (Type lockedSource) \<noteq> ''file''
   \<and> renderSource unixHost project ''.'' lockedSource []
       = Inl (CollectFailed ''zip'' (StatFailed ''/proj/locked'' ErrPermission))
   \<and> renderSource unixHost project ''.'' lockedSource [] \<noteq> Inl (UnknownSourceType ''zip'')
   \<and> Generate unixHost \<lparr>ProjectPath = ''.'', Documents = [lockedDoc]\<rparr> ''.'' project
       = (project, Some (CollectFailed ''zip'' (StatFailed ''/proj/locked'' ErrPermission)))"
  by code_simp

text \<open>
  Claim C7, amended. Let a document have a source whose lower-cased type is neither
  \<^verbatim>\<open>tree\<close> nor \<^verbatim>\<open>file\<close>, and let the sources before it render without error. Then
  generating the document fails at that source, without looking at the later sources and
  without creating or writing anything: with the error \<open>unknown source type\<close> carrying
  the type as written when the collection of the source's files succeeds, and with the
  error of the collection, wrapped with the type, when it fails.
\<close>

theorem unknown_type_fails_document:
  assumes "strings_ToLower E (Type src) \<noteq> ''tree''"
      and "strings_ToLower E (Type src) \<noteq> ''file''"
      and "Sources doc = pre @ src # post"
      and "renderSources E w root pre (heading doc) = Inr b"
    shows "generateDoc E root w doc =
            (w, Some (case collectFiles E w root (SourcePaths src) (FilePattern src) of
                        Inl err \<Rightarrow> CollectFailed (Type src) err
                      | Inr files \<Rightarrow> UnknownSourceType (Type src)))"
  using assms
  by (simp add: generateDoc_heading renderSources_append renderSource_unknown_type
           split: sum.splits)

theorem unknown_type_fails_document_witness:
  "strings_ToLower unixHost (Type zipSource) \<noteq> ''tree''
   \<and> strings_ToLower unixHost (Type zipSource) \<noteq> ''file''
   \<and> Sources badDoc = [treeSource] @ zipSource # [fileSource]
   \<and> collectFiles unixHost project ''.'' (SourcePaths zipSource) (FilePattern zipSource)
       = Inr [''src/a.go'', ''src/b/c.go'']
   \<and> generateDoc unixHost ''.'' project badDoc = (project, Some (UnknownSourceType ''zip''))"
proof -
  have t1: "strings_ToLower unixHost (Type zipSource) \<noteq> ''tree''"
    and t2: "strings_ToLower unixHost (Type zipSource) \<noteq> ''file''"
    by code_simp+
  have s: "Sources badDoc = [treeSource] @ zipSource # [fileSource]"
    by (simp add: badDoc_def)
  have "case renderSources unixHost project ''.'' [treeSource] (heading badDoc) of
          Inl e \<Rightarrow> False | Inr b \<Rightarrow> True"
    by code_simp
  then obtain b where r: "renderSources unixHost project ''.'' [treeSource] (heading badDoc) = Inr b"
    by (auto split: sum.splits)
  have c: "collectFiles unixHost project ''.'' (SourcePaths zipSource) (FilePattern zipSource)
             = Inr [''src/a.go'', ''src/b/c.go'']"
    by code_simp
  have ty: "Type zipSource = ''zip''"
    by (simp add: zipSource_def)
  from unknown_type_fails_document [OF t1 t2 s r] c t1 t2 s ty
  show ?thesis by simp
qed

section \<open>Patterns and the filter of the collector\<close>

lemma strings_Split_nonempty [simp]: "strings_Split sep s \<noteq> []"
  by (induction s) (auto split: list.splits)

lemma strings_Split_join: "joinWith sep (strings_Split sep s) = s"
proof (induction s)
  case Nil
  show ?case by simp
next
  case (Cons c cs)
  obtain p ps where sp: "strings_Split sep cs = p # ps"
    by (cases "strings_Split sep cs") simp_all
  with Cons show ?case
    by (cases ps) auto
qed

lemma strings_Split_no_sep: "p \<in> set (strings_Split sep s) \<Longrightarrow> sep \<notin> set p"
  by (induction s arbitrary: p) (auto split: if_splits list.splits)

lemma splitPatternsLoop_filter:
  "splitPatternsLoop E parts out = out @ filter (\<lambda>p. p \<noteq> []) (map (strings_TrimSpace E) parts)"
  by (induction parts arbitrary: out) (simp_all add: Let_def)

lemma matchAny_iff: "matchAny E patterns nm \<longleftrightarrow> (\<exists>p \<in> set patterns. fst (filepath_Match E p nm))"
  by (induction patterns) auto

lemma included_matchAny: "(patterns = [] \<or> matchAny E patterns nm) = included E patterns nm"
  by (simp add: included_def matchAny_iff)

section \<open>Expanding the source paths\<close>

lemma hasGlob_iff:
  "hasGlob p \<longleftrightarrow> CHR ''*'' \<in> set p \<or> CHR ''?'' \<in> set p \<or> CHR ''['' \<in> set p"
  by (auto simp: hasGlob_def strings_ContainsAny_def)

lemma fold_append_clean:
  "fold (\<lambda>m out'. out' @ [f m]) ms out = out @ map f ms"
  by (induction ms arbitrary: out) simp_all

lemma expandLoop_Cons:
  "expandLoop E w rootAbs (d # dirs) out =
    (let pat = resolvePattern E rootAbs d
     in if hasGlob pat then
          (case filepath_Glob E w pat of
             Inl err \<Rightarrow> Inl (GlobFailed pat err)
           | Inr matches \<Rightarrow>
               if matches = [] then expandLoop E w rootAbs dirs out
               else expandLoop E w rootAbs dirs
                      (fold (\<lambda>m out'. out' @ [filepath_Clean E m]) matches out))
        else expandLoop E w rootAbs dirs (out @ [filepath_Clean E pat]))"
  by (simp add: resolvePattern_def)

lemma expandLoop_step_fail:
  assumes "hasGlob (resolvePattern E rootAbs d)"
      and "filepath_Glob E w (resolvePattern E rootAbs d) = Inl err"
  shows "expandLoop E w rootAbs (d # dirs) out = Inl (GlobFailed (resolvePattern E rootAbs d) err)"
  unfolding expandLoop_Cons using assms by (simp add: Let_def)

lemma expandLoop_step_ok:
  assumes "hasGlob (resolvePattern E rootAbs d) \<longrightarrow> \<not> globFails E w (resolvePattern E rootAbs d)"
  shows "expandLoop E w rootAbs (d # dirs) out
           = expandLoop E w rootAbs dirs (out @ contribution E w rootAbs d)"
  unfolding expandLoop_Cons using assms
  by (cases "filepath_Glob E w (resolvePattern E rootAbs d)")
     (simp_all add: Let_def globFails_def contribution_def fold_append_clean)

lemma expandLoop_ok:
  assumes "\<forall>d \<in> set dirs. hasGlob (resolvePattern E rootAbs d)
             \<longrightarrow> \<not> globFails E w (resolvePattern E rootAbs d)"
  shows "expandLoop E w rootAbs dirs out = Inr (out @ concat (map (contribution E w rootAbs) dirs))"
  using assms
proof (induction dirs arbitrary: out)
  case Nil
  show ?case by simp
next
  case (Cons d dirs)
  then show ?case
    by (simp add: expandLoop_step_ok del: expandLoop.simps)
qed

lemma expandLoop_fail:
  assumes "\<forall>d \<in> set pre. hasGlob (resolvePattern E rootAbs d)
             \<longrightarrow> \<not> globFails E w (resolvePattern E rootAbs d)"
      and "hasGlob (resolvePattern E rootAbs d)"
      and "filepath_Glob E w (resolvePattern E rootAbs d) = Inl err"
  shows "expandLoop E w rootAbs (pre @ d # post) out
           = Inl (GlobFailed (resolvePattern E rootAbs d) err)"
  using assms
proof (induction pre arbitrary: out)
  case Nil
  then show ?case by (simp add: expandLoop_step_fail del: expandLoop.simps)
next
  case (Cons p pre)
  then show ?case
    by (simp add: expandLoop_step_ok del: expandLoop.simps)
qed

text \<open>
  What the code computes. Each entry is resolved to a pattern: the entry itself when it is
  absolute, the root joined with it otherwise, and the glob test is made on the resolved
  pattern. When no glob expansion fails, the output is the concatenation, in the order of
  the entries, of the \<open>contribution\<close> of each entry.
\<close>

lemma expandSourceStarts_contributions:
  assumes "\<forall>d \<in> set dirs. hasGlob (resolvePattern E rootAbs d)
             \<longrightarrow> \<not> globFails E w (resolvePattern E rootAbs d)"
  shows "expandSourceStarts E w rootAbs dirs = Inr (concat (map (contribution E w rootAbs) dirs))"
  using expandLoop_ok [OF assms, of "[]"] by (simp add: expandSourceStarts_def)


text \<open>
  Where resolving an entry does not change whether it has a glob metacharacter, the code
  does what claim C5 and the comment above \<^verbatim>\<open>collectFiles\<close> say: an entry with a
  metacharacter contributes the cleaned matches of its glob, in their order and possibly
  none, and an entry without one contributes its cleaned path unconditionally.
\<close>

lemma expandSourceStarts_as_claimed:
  assumes "\<forall>d \<in> set dirs. hasGlob (resolvePattern E rootAbs d) = hasGlob d"
      and "\<forall>d \<in> set dirs. hasGlob d \<longrightarrow> \<not> globFails E w (resolvePattern E rootAbs d)"
  shows "expandSourceStarts E w rootAbs dirs
           = Inr (concat (map (claimedContribution E w rootAbs) dirs))"
proof -
  have "map (contribution E w rootAbs) dirs = map (claimedContribution E w rootAbs) dirs"
    using assms(1) by (simp add: contribution_def claimedContribution_def Let_def)
  moreover have "expandSourceStarts E w rootAbs dirs
                   = Inr (concat (map (contribution E w rootAbs) dirs))"
    using assms by (intro expandSourceStarts_contributions) simp
  ultimately show ?thesis by (simp only:)
qed

text \<open>
  Claim C5 is what the code is meant to do, and the code misses it when the root itself
  has a glob metacharacter. In the project \<^verbatim>\<open>/p[1]\<close> the entry \<^verbatim>\<open>src\<close> has no
  metacharacter, but its resolved pattern \<^verbatim>\<open>/p[1]/src\<close> has one and is globbed; the glob
  matches nothing, so the entry contributes nothing where the claim gives its cleaned path
  \<^verbatim>\<open>/p[1]/src\<close>. The directory exists and holds \<^verbatim>\<open>a.go\<close>, which collection from the
  start point \<^verbatim>\<open>/p[1]/src\<close> finds, yet \<^verbatim>\<open>collectFiles\<close> returns no file.
\<close>

theorem expandSourceStarts_globs_literal_entry:
  "filepath_Abs bracketHost bracketProject ''.'' = Inr ''/p[1]''
   \<and> \<not> hasGlob ''src''
   \<and> resolvePattern bracketHost ''/p[1]'' ''src'' = ''/p[1]/src''
   \<and> hasGlob (resolvePattern bracketHost ''/p[1]'' ''src'')
   \<and> expandSourceStarts bracketHost bracketProject ''/p[1]'' [''src''] = Inr []
   \<and> concat (map (claimedContribution bracketHost bracketProject ''/p[1]'') [''src''])
       = [''/p[1]/src'']
   \<and> os_Stat bracketHost bracketProject ''/p[1]/src'' = Inr True
   \<and> collectLoop bracketHost bracketProject ''/p[1]'' [] [''/p[1]/src''] {||}
       = Inr {|''src/a.go''|}
   \<and> collectFiles bracketHost bracketProject ''.'' [''src''] [] = Inr []"
  by code_simp

section \<open>Errors during collection\<close>

lemma collectFiles_finish:
  assumes "filepath_Abs E w root = Inr rootAbs"
      and "expandSourceStarts E w rootAbs dirs = Inr starts"
  shows "collectFiles E w root dirs csv
           = finish (collectLoop E w rootAbs (splitPatterns E csv) starts {||})"
  using assms by (simp add: collectFiles_def finish_def Let_def)

lemma collectLoop_Cons:
  "collectLoop E w rootAbs patterns (start # starts) seen =
    (case collectStep E w rootAbs patterns start seen of
       Inl err \<Rightarrow> Inl err
     | Inr s \<Rightarrow> collectLoop E w rootAbs patterns starts s)"
proof (cases "os_Stat E w start")
  case (Inl err)
  then show ?thesis by (simp add: collectStep_def)
next
  case (Inr infoIsDir)
  show ?thesis
  proof (cases infoIsDir)
    case True
    with Inr show ?thesis
      by (cases "walkDir (walkFn E rootAbs patterns) (filepath_WalkDir E w start) seen")
         (simp_all add: collectStep_def)
  next
    case False
    with Inr show ?thesis
      by (cases "filepath_Rel E rootAbs start") (simp_all add: collectStep_def Let_def)
  qed
qed

lemma collectLoop_append:
  "collectLoop E w rootAbs patterns (pre @ post) seen =
    (case collectLoop E w rootAbs patterns pre seen of
       Inl err \<Rightarrow> Inl err
     | Inr s \<Rightarrow> collectLoop E w rootAbs patterns post s)"
proof (induction pre arbitrary: seen)
  case Nil
  show ?case by simp
next
  case (Cons p pre)
  show ?case
    by (simp add: collectLoop_Cons Cons.IH del: collectLoop.simps split: sum.splits)
qed

lemma collectLoop_skip:
  assumes "os_Stat E w start = Inl err" "isNotExist err"
  shows "collectLoop E w rootAbs patterns (pre @ start # post) seen
           = collectLoop E w rootAbs patterns (pre @ post) seen"
  using assms by (simp add: collectLoop_append split: sum.splits)

lemma collectLoop_stat_failure:
  assumes "collectLoop E w rootAbs patterns pre seen = Inr s1"
      and "os_Stat E w start = Inl err" "\<not> isNotExist err"
  shows "collectLoop E w rootAbs patterns (pre @ start # post) seen = Inl (StatFailed start err)"
  using assms by (simp add: collectLoop_append)

lemma collectLoop_walk_failure:
  assumes "collectLoop E w rootAbs patterns pre seen = Inr s1"
      and "os_Stat E w start = Inr True"
      and "walkDir (walkFn E rootAbs patterns) (filepath_WalkDir E w start) s1 = Inl err"
  shows "collectLoop E w rootAbs patterns (pre @ start # post) seen = Inl (WalkFailed start err)"
  using assms by (simp add: collectLoop_append)

lemma walkDir_ok_no_error:
  "walkDir (walkFn E rootAbs patterns) its s = Inr s' \<Longrightarrow> it \<in> set its \<Longrightarrow> wi_err it = None"
proof (induction its arbitrary: s)
  case Nil
  then show ?case by simp
next
  case (Cons a its)
  from Cons.prems(1) obtain s1 where
    a: "walkFn E rootAbs patterns a s = Inr s1"
    and rest: "walkDir (walkFn E rootAbs patterns) its s1 = Inr s'"
    by (auto split: sum.splits)
  from a have "wi_err a = None"
    by (auto simp: walkFn_def split: option.splits)
  with Cons.prems(2) Cons.IH [OF rest] show ?case by auto
qed

lemma walkDir_item_error:
  assumes "walkDir (walkFn E rootAbs patterns) its1 s = Inr s1" "wi_err it = Some e"
  shows "walkDir (walkFn E rootAbs patterns) (its1 @ it # its2) s = Inl e"
  using assms
proof (induction its1 arbitrary: s)
  case Nil
  then show ?case by (simp add: walkFn_def)
next
  case (Cons a its1)
  then show ?case by (auto split: sum.splits)
qed

lemma collectLoop_ok_no_error:
  assumes "collectLoop E w rootAbs patterns starts seen = Inr seen'" "start \<in> set starts"
  shows "(\<forall>err. os_Stat E w start = Inl err \<longrightarrow> isNotExist err)
         \<and> (os_Stat E w start = Inr True \<longrightarrow> (\<forall>it \<in> set (filepath_WalkDir E w start). wi_err it = None))"
  using assms
proof (induction starts arbitrary: seen)
  case Nil
  then show ?case by simp
next
  case (Cons a starts)
  from Cons.prems(1) obtain s1 where
    rest: "collectLoop E w rootAbs patterns starts s1 = Inr seen'"
    and a: "(\<forall>err. os_Stat E w a = Inl err \<longrightarrow> isNotExist err)
            \<and> (os_Stat E w a = Inr True \<longrightarrow>
                 (\<exists>s s'. walkDir (walkFn E rootAbs patterns) (filepath_WalkDir E w a) s = Inr s'))"
    by (cases "os_Stat E w a") (auto simp: Let_def split: sum.splits if_splits)
  show ?case
  proof (cases "start = a")
    case True
    with a show ?thesis by (auto dest: walkDir_ok_no_error)
  next
    case False
    with Cons.prems(2) have "start \<in> set starts" by simp
    from Cons.IH [OF rest this] show ?thesis .
  qed
qed

text \<open>
  Claim C6, as stated, fails: a missing start point is not the only error condition that
  collection swallows. \<^verbatim>\<open>matchAny\<close> drops the error of \<^verbatim>\<open>filepath.Match\<close>, so a
  malformed file pattern is reported for every name and \<^verbatim>\<open>collectFiles\<close> still succeeds,
  with no file.
\<close>

theorem match_error_swallowed_counterexample:
  "filepath_Match unixHost ''['' ''a.go'' = (False, Some ErrBadPattern)
   \<and> splitPatterns unixHost ''['' = [''['']
   \<and> collectFiles unixHost project ''.'' [''src''] ''['' = Inr []"
  by code_simp

text \<open>
  Claim C6, amended. Let the start points be \<open>pre\<close>, then \<open>start\<close>, then \<open>post\<close>.
  \<^item> If \<^verbatim>\<open>stat\<close> reports that \<open>start\<close> does not exist, \<^verbatim>\<open>collectFiles\<close> returns what it
    returns for the start points \<open>pre\<close> and \<open>post\<close> alone: no error and no entry comes from
    \<open>start\<close>.
  \<^item> If the start points \<open>pre\<close> are processed without error and \<^verbatim>\<open>stat\<close> of \<open>start\<close> fails
    in any other way, \<^verbatim>\<open>collectFiles\<close> fails with the \<open>stat\<close> error for the path \<open>start\<close>.
  \<^item> If the start points \<open>pre\<close> are processed without error, \<open>start\<close> is a directory and
    the walk hands an error to the callback (after entries that were processed without
    error), \<^verbatim>\<open>collectFiles\<close> fails with the \<open>walk\<close> error for the start point \<open>start\<close>.
  \<^item> Among the errors of \<^verbatim>\<open>stat\<close> and of the walk, not-found is the only one swallowed:
    when \<^verbatim>\<open>collectFiles\<close> succeeds, every failed \<^verbatim>\<open>stat\<close> of a start point was a
    not-found, and no walk of a start point handed an error to the callback.
\<close>

theorem collectFiles_error_policy:
  assumes "filepath_Abs E w root = Inr rootAbs"
      and "expandSourceStarts E w rootAbs dirs = Inr (pre @ start # post)"
  shows "(\<forall>err. os_Stat E w start = Inl err \<and> isNotExist err \<longrightarrow>
            collectFiles E w root dirs csv
              = finish (collectLoop E w rootAbs (splitPatterns E csv) (pre @ post) {||}))
       \<and> (\<forall>err s1. collectLoop E w rootAbs (splitPatterns E csv) pre {||} = Inr s1
              \<and> os_Stat E w start = Inl err \<and> \<not> isNotExist err \<longrightarrow>
            collectFiles E w root dirs csv = Inl (StatFailed start err))
       \<and> (\<forall>err s1 s2 its1 it its2.
              collectLoop E w rootAbs (splitPatterns E csv) pre {||} = Inr s1
              \<and> os_Stat E w start = Inr True
              \<and> filepath_WalkDir E w start = its1 @ it # its2
              \<and> walkDir (walkFn E rootAbs (splitPatterns E csv)) its1 s1 = Inr s2
              \<and> wi_err it = Some err \<longrightarrow>
            collectFiles E w root dirs csv = Inl (WalkFailed start err))
       \<and> (\<forall>out. collectFiles E w root dirs csv = Inr out \<longrightarrow>
            (\<forall>err. os_Stat E w start = Inl err \<longrightarrow> isNotExist err)
            \<and> (os_Stat E w start = Inr True \<longrightarrow>
                 (\<forall>it \<in> set (filepath_WalkDir E w start). wi_err it = None)))"
proof -
  note cf = collectFiles_finish [OF assms, of csv]
  have a: "collectFiles E w root dirs csv
             = finish (collectLoop E w rootAbs (splitPatterns E csv) (pre @ post) {||})"
    if "os_Stat E w start = Inl err" "isNotExist err" for err
    using that by (simp add: cf collectLoop_skip)
  have b: "collectFiles E w root dirs csv = Inl (StatFailed start err)"
    if "collectLoop E w rootAbs (splitPatterns E csv) pre {||} = Inr s1"
       "os_Stat E w start = Inl err" "\<not> isNotExist err" for err s1
    using that by (simp add: cf collectLoop_stat_failure finish_def)
  have c: "collectFiles E w root dirs csv = Inl (WalkFailed start err)"
    if "collectLoop E w rootAbs (splitPatterns E csv) pre {||} = Inr s1"
       "os_Stat E w start = Inr True"
       "filepath_WalkDir E w start = its1 @ it # its2"
       "walkDir (walkFn E rootAbs (splitPatterns E csv)) its1 s1 = Inr s2"
       "wi_err it = Some err" for err s1 s2 its1 it its2
  proof -
    have "walkDir (walkFn E rootAbs (splitPatterns E csv)) (filepath_WalkDir E w start) s1 = Inl err"
      using that(3-5) by (simp add: walkDir_item_error)
    with that(1,2) show ?thesis
      by (simp add: cf collectLoop_walk_failure finish_def)
  qed
  have d: "(\<forall>err. os_Stat E w start = Inl err \<longrightarrow> isNotExist err)
            \<and> (os_Stat E w start = Inr True \<longrightarrow>
                 (\<forall>it \<in> set (filepath_WalkDir E w start). wi_err it = None))"
    if "collectFiles E w root dirs csv = Inr out" for out
  proof -
    from that obtain seen where
      "collectLoop E w rootAbs (splitPatterns E csv) (pre @ start # post) {||} = Inr seen"
      by (auto simp: cf finish_def split: sum.splits)
    then show ?thesis
      by (rule collectLoop_ok_no_error) simp
  qed
  from a b c d show ?thesis by blast
qed

text \<open>
  On the example project, between the start points \<^verbatim>\<open>src/b\<close> and \<^verbatim>\<open>src\<close>: a missing
  directory changes nothing, a directory that cannot be inspected gives the \<open>stat\<close> error,
  and a directory that cannot be read gives the \<open>walk\<close> error.
\<close>

theorem collectFiles_error_policy_witness:
  "collectFiles unixHost project ''.'' [''src/b'', ''missing'', ''src''] ''*.go''
     = Inr [''src/a.go'', ''src/b/c.go'']
   \<and> finish (collectLoop unixHost project ''/proj'' (splitPatterns unixHost ''*.go'')
               ([''/proj/src/b''] @ [''/proj/src'']) {||})
     = Inr [''src/a.go'', ''src/b/c.go'']
   \<and> collectFiles unixHost project ''.'' [''src/b'', ''locked'', ''src''] ''*.go''
     = Inl (StatFailed ''/proj/locked'' ErrPermission)
   \<and> collectFiles unixHost project ''.'' [''src/b'', ''broken'', ''src''] ''*.go''
     = Inl (WalkFailed ''/proj/broken'' ErrPermission)"
proof -
  have abs: "filepath_Abs unixHost project ''.'' = Inr ''/proj''"
    by code_simp
  have pre: "collectLoop unixHost project ''/proj'' (splitPatterns unixHost ''*.go'')
               [''/proj/src/b''] {||} = Inr {|''src/b/c.go''|}"
    by code_simp
  \<comment> \<open>a start point that does not exist\<close>
  have ex1: "expandSourceStarts unixHost project ''/proj'' [''src/b'', ''missing'', ''src'']
               = Inr ([''/proj/src/b''] @ ''/proj/missing'' # [''/proj/src''])"
    by code_simp
  have st1: "os_Stat unixHost project ''/proj/missing'' = Inl ErrNotExist \<and> isNotExist ErrNotExist"
    by code_simp
  have fin: "finish (collectLoop unixHost project ''/proj'' (splitPatterns unixHost ''*.go'')
               ([''/proj/src/b''] @ [''/proj/src'']) {||}) = Inr [''src/a.go'', ''src/b/c.go'']"
    by code_simp
  from collectFiles_error_policy [OF abs ex1, of "''*.go''"] st1
  have r1: "collectFiles unixHost project ''.'' [''src/b'', ''missing'', ''src''] ''*.go''
              = finish (collectLoop unixHost project ''/proj'' (splitPatterns unixHost ''*.go'')
                  ([''/proj/src/b''] @ [''/proj/src'']) {||})"
    by blast
  \<comment> \<open>a start point that cannot be inspected\<close>
  have ex2: "expandSourceStarts unixHost project ''/proj'' [''src/b'', ''locked'', ''src'']
               = Inr ([''/proj/src/b''] @ ''/proj/locked'' # [''/proj/src''])"
    by code_simp
  have st2: "os_Stat unixHost project ''/proj/locked'' = Inl ErrPermission \<and> \<not> isNotExist ErrPermission"
    by code_simp
  from collectFiles_error_policy [OF abs ex2, of "''*.go''"] pre st2
  have r2: "collectFiles unixHost project ''.'' [''src/b'', ''locked'', ''src''] ''*.go''
              = Inl (StatFailed ''/proj/locked'' ErrPermission)"
    by blast
  \<comment> \<open>a directory whose walk reports an error\<close>
  have ex3: "expandSourceStarts unixHost project ''/proj'' [''src/b'', ''broken'', ''src'']
               = Inr ([''/proj/src/b''] @ ''/proj/broken'' # [''/proj/src''])"
    by code_simp
  have st3: "os_Stat unixHost project ''/proj/broken'' = Inr True"
    by code_simp
  have wk: "filepath_WalkDir unixHost project ''/proj/broken''
              = [WalkItem ''/proj/broken'' ''broken'' True None]
                @ WalkItem ''/proj/broken'' ''broken'' True (Some ErrPermission) # []"
    by code_simp
  have w1: "walkDir (walkFn unixHost ''/proj'' (splitPatterns unixHost ''*.go''))
              [WalkItem ''/proj/broken'' ''broken'' True None] {|''src/b/c.go''|}
              = Inr {|''src/b/c.go''|}"
    by code_simp
  have e3: "wi_err (WalkItem ''/proj/broken'' ''broken'' True (Some ErrPermission)) = Some ErrPermission"
    by simp
  from collectFiles_error_policy [OF abs ex3, of "''*.go''"] pre st3 wk w1 e3
  have r3: "collectFiles unixHost project ''.'' [''src/b'', ''broken'', ''src''] ''*.go''
              = Inl (WalkFailed ''/proj/broken'' ErrPermission)"
    by blast
  from r1 fin r2 r3 show ?thesis by simp
qed

section \<open>What the collector includes\<close>

lemma walkFn_included:
  "walkFn E rootAbs patterns it seen =
    (case wi_err it of
       Some walkErr \<Rightarrow> Inl walkErr
     | None \<Rightarrow>
         if wi_isDir it then Inr seen
         else if included E patterns (wi_name it) then
           (case filepath_Rel E rootAbs (wi_path it) of
              Inl err \<Rightarrow> Inl err
            | Inr rel \<Rightarrow> Inr (finsert (filepath_ToSlash E rel) seen))
         else Inr seen)"
  unfolding walkFn_def included_matchAny ..

lemma walkFn_yield:
  assumes "walkFn E rootAbs patterns it seen = Inr seen'"
  shows "fset seen' = fset seen
           \<union> set (if wi_isDir it then [] else entryYield E rootAbs patterns (wi_path it) (wi_name it))"
proof (cases "wi_err it")
  case (Some e)
  with assms show ?thesis by (simp add: walkFn_included)
next
  case None
  show ?thesis
  proof (cases "wi_isDir it")
    case True
    with assms None show ?thesis by (simp add: walkFn_included)
  next
    case False
    show ?thesis
    proof (cases "included E patterns (wi_name it)")
      case nin: False
      with assms None False show ?thesis by (simp add: walkFn_included entryYield_def)
    next
      case inc: True
      show ?thesis
      proof (cases "filepath_Rel E rootAbs (wi_path it)")
        case (Inl err)
        with assms None False inc show ?thesis by (simp add: walkFn_included)
      next
        case (Inr rel)
        with assms None False inc have "seen' = finsert (filepath_ToSlash E rel) seen"
          by (simp add: walkFn_included)
        with False inc Inr show ?thesis by (simp add: entryYield_def)
      qed
    qed
  qed
qed

lemma walkDir_yield:
  assumes "walkDir (walkFn E rootAbs patterns) its seen = Inr seen'"
  shows "fset seen' = fset seen
           \<union> set (concat (map (\<lambda>it. if wi_isDir it then []
                                else entryYield E rootAbs patterns (wi_path it) (wi_name it)) its))"
  using assms
proof (induction its arbitrary: seen)
  case Nil
  then show ?case by simp
next
  case (Cons it its)
  from Cons.prems obtain s1 where
    s1: "walkFn E rootAbs patterns it seen = Inr s1"
    and rest: "walkDir (walkFn E rootAbs patterns) its s1 = Inr seen'"
    by (auto split: sum.splits)
  from walkFn_yield [OF s1] Cons.IH [OF rest] show ?case
    by (simp add: Un_assoc)
qed

lemma collectStep_yield:
  assumes "collectStep E w rootAbs patterns start seen = Inr seen'"
  shows "fset seen' = fset seen \<union> set (startYield E w rootAbs patterns start)"
proof (cases "os_Stat E w start")
  case (Inl err)
  with assms show ?thesis
    by (simp add: collectStep_def startYield_def split: if_splits)
next
  case (Inr infoIsDir)
  show ?thesis
  proof (cases infoIsDir)
    case True
    with assms Inr obtain "walkDir (walkFn E rootAbs patterns) (filepath_WalkDir E w start) seen = Inr seen'"
      by (auto simp: collectStep_def split: sum.splits)
    from walkDir_yield [OF this] True Inr show ?thesis
      by (simp add: startYield_def)
  next
    case False
    have step: "collectStep E w rootAbs patterns start seen =
        (if included E patterns (filepath_Base E start) then
           (case filepath_Rel E rootAbs start of
              Inl err \<Rightarrow> Inl (Plain err)
            | Inr rel \<Rightarrow> Inr (finsert (filepath_ToSlash E rel) seen))
         else Inr seen)"
      using Inr False by (simp add: collectStep_def included_matchAny)
    have yield: "startYield E w rootAbs patterns start
                   = entryYield E rootAbs patterns start (filepath_Base E start)"
      using Inr False by (simp add: startYield_def)
    show ?thesis
    proof (cases "included E patterns (filepath_Base E start)")
      case nin: False
      with assms step show ?thesis by (simp add: yield entryYield_def)
    next
      case inc: True
      show ?thesis
      proof (cases "filepath_Rel E rootAbs start")
        case (Inl err)
        with assms step inc show ?thesis by simp
      next
        case (Inr rel)
        with assms step inc have "seen' = finsert (filepath_ToSlash E rel) seen"
          by simp
        with inc Inr show ?thesis by (simp add: yield entryYield_def)
      qed
    qed
  qed
qed

lemma collectLoop_yield:
  assumes "collectLoop E w rootAbs patterns starts seen = Inr seen'"
  shows "fset seen' = fset seen \<union> set (concat (map (startYield E w rootAbs patterns) starts))"
  using assms
proof (induction starts arbitrary: seen)
  case Nil
  then show ?case by simp
next
  case (Cons start starts)
  from Cons.prems obtain s1 where
    s1: "collectStep E w rootAbs patterns start seen = Inr s1"
    and rest: "collectLoop E w rootAbs patterns starts s1 = Inr seen'"
    by (auto simp: collectLoop_Cons simp del: collectLoop.simps split: sum.splits)
  from collectStep_yield [OF s1] Cons.IH [OF rest] show ?case
    by (simp add: Un_assoc)
qed

text \<open>
  Claim C4. The pattern list of a pattern string consists of the parts between its commas,
  each trimmed by \<^verbatim>\<open>strings.TrimSpace\<close>, without the parts that are empty after trimming.
  When \<^verbatim>\<open>collectFiles\<close> succeeds, its output is the sorted list of the set of paths that
  the start points yield with this pattern list: a start point that is a regular file
  yields its relative path if and only if the pattern list is empty or its base name
  matches a pattern, a start point that is a directory yields the relative path of every
  entry of its walk that is not a directory and whose name passes the same test, and
  nothing else is in the output.
\<close>

theorem collectFiles_includes_matching_files:
  assumes "filepath_Abs E w root = Inr rootAbs"
      and "expandSourceStarts E w rootAbs dirs = Inr starts"
      and "collectFiles E w root dirs csv = Inr out"
  shows "splitPatterns E csv
           = filter (\<lambda>p. p \<noteq> []) (map (strings_TrimSpace E) (strings_Split CHR '','' csv))
       \<and> out = sorted_list_of_set
                 (set (concat (map (startYield E w rootAbs (splitPatterns E csv)) starts)))"
proof -
  from assms obtain seen where
    loop: "collectLoop E w rootAbs (splitPatterns E csv) starts {||} = Inr seen"
    and out: "out = sorted_list_of_fset seen"
    by (auto simp: collectFiles_finish [OF assms(1,2)] finish_def split: sum.splits)
  from collectLoop_yield [OF loop]
  have "fset seen = set (concat (map (startYield E w rootAbs (splitPatterns E csv)) starts))"
    by simp
  with out have "out = sorted_list_of_set
                 (set (concat (map (startYield E w rootAbs (splitPatterns E csv)) starts)))"
    by (simp add: sorted_list_of_fset.rep_eq)
  then show ?thesis
    by (simp add: splitPatterns_def splitPatternsLoop_filter)
qed

text \<open>
  On the example project, with a file that does not match, a directory, a file that
  matches and the directory above them as source paths.
\<close>

theorem collectFiles_includes_matching_files_witness:
  "filepath_Abs unixHost project ''.'' = Inr ''/proj''
   \<and> expandSourceStarts unixHost project ''/proj'' [''src/notes.txt'', ''src/b'', ''src/a.go'', ''src'']
       = Inr [''/proj/src/notes.txt'', ''/proj/src/b'', ''/proj/src/a.go'', ''/proj/src'']
   \<and> collectFiles unixHost project ''.'' [''src/notes.txt'', ''src/b'', ''src/a.go'', ''src'']
         '' *.go, ,*.md ,''
       = Inr [''src/a.go'', ''src/b/c.go'']
   \<and> splitPatterns unixHost '' *.go, ,*.md ,'' = [''*.go'', ''*.md'']
   \<and> map (startYield unixHost project ''/proj'' [''*.go'', ''*.md''])
         [''/proj/src/notes.txt'', ''/proj/src/b'', ''/proj/src/a.go'', ''/proj/src'']
       = [[], [''src/b/c.go''], [''src/a.go''], [''src/a.go'', ''src/b/c.go'']]
   \<and> [''src/a.go'', ''src/b/c.go'']
       = sorted_list_of_set (set (concat (map (startYield unixHost project ''/proj''
            (splitPatterns unixHost '' *.go, ,*.md ,''))
            [''/proj/src/notes.txt'', ''/proj/src/b'', ''/proj/src/a.go'', ''/proj/src''])))"
proof -
  have a: "filepath_Abs unixHost project ''.'' = Inr ''/proj''"
    by code_simp
  have e: "expandSourceStarts unixHost project ''/proj'' [''src/notes.txt'', ''src/b'', ''src/a.go'', ''src'']
       = Inr [''/proj/src/notes.txt'', ''/proj/src/b'', ''/proj/src/a.go'', ''/proj/src'']"
    by code_simp
  have c: "collectFiles unixHost project ''.'' [''src/notes.txt'', ''src/b'', ''src/a.go'', ''src'']
         '' *.go, ,*.md ,'' = Inr [''src/a.go'', ''src/b/c.go'']"
    by code_simp
  have sp: "splitPatterns unixHost '' *.go, ,*.md ,'' = [''*.go'', ''*.md'']"
    by code_simp
  have y: "map (startYield unixHost project ''/proj'' [''*.go'', ''*.md''])
         [''/proj/src/notes.txt'', ''/proj/src/b'', ''/proj/src/a.go'', ''/proj/src'']
       = [[], [''src/b/c.go''], [''src/a.go''], [''src/a.go'', ''src/b/c.go'']]"
    by code_simp
  from collectFiles_includes_matching_files [OF a e c] a e c sp y
  show ?thesis by blast
qed

end
